theory Spec2Isabelle
  imports Complex_Main "HOL-Library.Log_Nat"
begin

section \<open>The Python primitives the watcher relies on\<close>

text \<open>
  \<^verbatim>\<open>watcher.py\<close> is a single Python 3 module. A Python \<^verbatim>\<open>str\<close> is modelled as
  a \<^typ>\<open>string\<close> whose characters are its code points, which covers the code
  points below 256 (ASCII and Latin-1); the character classes below classify
  all of them as Python's \<^verbatim>\<open>re\<close> module does for \<^verbatim>\<open>str\<close> patterns. A Python
  float is a double: a finite one is modelled by the real number it stands for,
  and the operations on floats round to the nearest double, ties to even, as
  defined below. A \<^verbatim>\<open>datetime\<close> is modelled by the number of seconds it shows
  on the wall clock.
\<close>

type_synonym py_float = real
type_synonym datetime = real

datatype py_error = ValueError | ZeroDivisionError

subsection \<open>Character classes\<close>

definition is_digit :: "char \<Rightarrow> bool" where
  \<comment> \<open>\<^verbatim>\<open>\d\<close>: the decimal digits; there is none from 128 to 255\<close>
  "is_digit c = (c \<in> set ''0123456789'')"

definition is_upper :: "char \<Rightarrow> bool" where
  \<comment> \<open>\<^verbatim>\<open>[A-Z]\<close>\<close>
  "is_upper c = (c \<in> set ''ABCDEFGHIJKLMNOPQRSTUVWXYZ'')"

definition is_lower :: "char \<Rightarrow> bool" where
  "is_lower c = (c \<in> set ''abcdefghijklmnopqrstuvwxyz'')"

definition is_latin1_alnum :: "char \<Rightarrow> bool" where
  \<comment> \<open>the 71 code points from 128 to 255 that \<^verbatim>\<open>str.isalnum\<close> accepts: the
      ordinal indicators, the superscripts two, three and one, the micro sign,
      the three vulgar fractions, and the letters (all of 192 to 255 but the
      multiplication and the division sign)\<close>
  "is_latin1_alnum c =
     (let n = (of_char c :: int)
      in n = 170 \<or> n = 178 \<or> n = 179 \<or> n = 181 \<or> n = 185 \<or> n = 186 \<or>
         (188 \<le> n \<and> n \<le> 190) \<or> (192 \<le> n \<and> n \<le> 214) \<or>
         (216 \<le> n \<and> n \<le> 246) \<or> (248 \<le> n \<and> n \<le> 255))"

definition is_word :: "char \<Rightarrow> bool" where
  \<comment> \<open>\<^verbatim>\<open>\w\<close>: alphanumeric or the underscore\<close>
  "is_word c =
     (is_lower c \<or> is_upper c \<or> is_digit c \<or> c = CHR ''_'' \<or> is_latin1_alnum c)"

definition is_space :: "char \<Rightarrow> bool" where
  \<comment> \<open>\<^verbatim>\<open>\s\<close>: tab, newline, vertical tab, form feed, carriage return, the four
      separators \<^verbatim>\<open>\x1c\<close> to \<^verbatim>\<open>\x1f\<close>, the space, the next line control
      \<^verbatim>\<open>\x85\<close> and the no-break space \<^verbatim>\<open>\xa0\<close>\<close>
  "is_space c =
     ((of_char c :: nat) \<in> {9, 10, 11, 12, 13, 28, 29, 30, 31, 32, 133, 160})"

definition is_release_char :: "char \<Rightarrow> bool" where
  \<comment> \<open>\<^verbatim>\<open>[\w\-\.]\<close>\<close>
  "is_release_char c = (is_word c \<or> c = CHR ''-'' \<or> c = CHR ''.'')"

definition is_upstream_char :: "char \<Rightarrow> bool" where
  \<comment> \<open>\<^verbatim>\<open>[\d\.:]\<close>\<close>
  "is_upstream_char c = (is_digit c \<or> c = CHR ''.'' \<or> c = CHR '':'')"

definition is_time_char :: "char \<Rightarrow> bool" where
  \<comment> \<open>\<^verbatim>\<open>[\d\.]\<close>\<close>
  "is_time_char c = (is_digit c \<or> c = CHR ''.'')"

definition not_quote :: "char \<Rightarrow> bool" where
  \<comment> \<open>\<^verbatim>\<open>[^"]\<close>\<close>
  "not_quote c = (c \<noteq> CHR 0x22)"

subsection \<open>The fragment of \<^verbatim>\<open>re\<close> used by the parser\<close>

text \<open>
  Every pattern of \<^verbatim>\<open>parse_log_line\<close> is a sequence of literal characters and
  greedy repetitions \<^verbatim>\<open>[class]+\<close>, closed by one capturing group
  \<^verbatim>\<open>([class]+)\<close>. A pattern is the list of the items before the group together
  with the class of the group.
\<close>

datatype re_item = Lit char | Plus "char \<Rightarrow> bool"

record regex =
  items :: "re_item list"
  group1 :: "char \<Rightarrow> bool"

text \<open>
  A greedy repetition first takes the longest run and gives characters back one
  at a time, down to a single one, until the rest of the pattern matches.
\<close>

fun try_lengths :: "(nat \<Rightarrow> 'a option) \<Rightarrow> nat \<Rightarrow> 'a option" where
  "try_lengths k 0 = None"
| "try_lengths k (Suc n) =
     (case k (Suc n) of Some r \<Rightarrow> Some r | None \<Rightarrow> try_lengths k n)"

text \<open>
  \<open>re_match_at its grp s\<close> matches the pattern at the start of \<open>s\<close> and returns
  \<^verbatim>\<open>group(1)\<close>. Nothing follows the group, so it takes its longest run.
\<close>

fun re_match_at :: "re_item list \<Rightarrow> (char \<Rightarrow> bool) \<Rightarrow> string \<Rightarrow> string option" where
  "re_match_at [] grp s =
     (if takeWhile grp s = [] then None else Some (takeWhile grp s))"
| "re_match_at (Lit c # its) grp s =
     (case s of [] \<Rightarrow> None
      | d # ds \<Rightarrow> if d = c then re_match_at its grp ds else None)"
| "re_match_at (Plus cls # its) grp s =
     try_lengths (\<lambda>n. re_match_at its grp (drop n s)) (length (takeWhile cls s))"

text \<open>\<^verbatim>\<open>re.search(pattern, line)\<close>: the match at the leftmost position that has one.\<close>

fun re_search :: "regex \<Rightarrow> string \<Rightarrow> string option" where
  "re_search p [] = re_match_at (items p) (group1 p) []"
| "re_search p (c # cs) =
     (case re_match_at (items p) (group1 p) (c # cs) of
        Some g \<Rightarrow> Some g
      | None \<Rightarrow> re_search p cs)"

definition key_pattern :: "string \<Rightarrow> (char \<Rightarrow> bool) \<Rightarrow> regex" where
  \<comment> \<open>\<^verbatim>\<open>key([class]+)\<close>\<close>
  "key_pattern key cls = \<lparr>items = map Lit key, group1 = cls\<rparr>"

definition pool_re :: regex where
  \<comment> \<open>\<^verbatim>\<open>pool=(\w+)\<close>\<close>
  "pool_re = key_pattern ''pool='' is_word"

definition release_re :: regex where
  \<comment> \<open>\<^verbatim>\<open>release=([\w\-\.]+)\<close>\<close>
  "release_re = key_pattern ''release='' is_release_char"

definition upstream_status_re :: regex where
  \<comment> \<open>\<^verbatim>\<open>upstream_status=(\d+)\<close>\<close>
  "upstream_status_re = key_pattern ''upstream_status='' is_digit"

definition status_re :: regex where
  \<comment> \<open>\<^verbatim>\<open>"[A-Z]+\s+[^"]+"\s+(\d+)\<close>\<close>
  "status_re =
     \<lparr>items = [Lit (CHR 0x22), Plus is_upper, Plus is_space, Plus not_quote,
               Lit (CHR 0x22), Plus is_space],
      group1 = is_digit\<rparr>"

definition upstream_re :: regex where
  \<comment> \<open>\<^verbatim>\<open>upstream=([\d\.:]+)\<close>\<close>
  "upstream_re = key_pattern ''upstream='' is_upstream_char"

definition request_time_re :: regex where
  \<comment> \<open>\<^verbatim>\<open>request_time=([\d\.]+)\<close>\<close>
  "request_time_re = key_pattern ''request_time='' is_time_char"

subsection \<open>\<^verbatim>\<open>int()\<close> and \<^verbatim>\<open>float()\<close> on the captured text\<close>

definition digit_value :: "char \<Rightarrow> int" where
  "digit_value c = of_char c - 48"

definition digits_value :: "string \<Rightarrow> int" where
  "digits_value s = foldl (\<lambda>n c. 10 * n + digit_value c) 0 s"

text \<open>
  \<^verbatim>\<open>int(s)\<close> for a text of decimal digits. The interpreter refuses a text of more
  than \<^verbatim>\<open>sys.get_int_max_str_digits()\<close> digits with \<^verbatim>\<open>ValueError\<close>; the limit
  is 4300 unless configured (to 0 or to at least 640), and 0 stands for no limit
  (as in an interpreter without the limit).
\<close>

definition py_int :: "nat \<Rightarrow> string \<Rightarrow> py_error + int" where
  "py_int max_str_digits s =
     (if 0 < max_str_digits \<and> max_str_digits < length s then Inl ValueError
      else Inr (digits_value s))"

subsection \<open>Double precision\<close>

text \<open>
  A double is a mantissa times a power of two. \<open>round_double a b\<close> is the double
  nearest to the fraction \<open>a / b\<close> of a non-negative \<open>a\<close> and a positive \<open>b\<close>,
  ties to the even mantissa: 53 bits of mantissa from the exponent
  \<open>floor_log2 a b\<close> of the fraction, fewer below \<open>2 ^ (- 1022)\<close>, where the
  exponent stays at \<open>- 1074\<close>. \<^verbatim>\<open>int / int\<close> and \<^verbatim>\<open>float * int\<close> round their exact
  result this way, and so does \<^verbatim>\<open>float\<close> of a decimal text.
\<close>

definition pow2 :: "int \<Rightarrow> real" where
  \<comment> \<open>two to the power \<open>e\<close>\<close>
  "pow2 e = (if 0 \<le> e then 2 ^ nat e else 1 / 2 ^ nat (- e))"

definition round_half_even :: "int \<Rightarrow> int \<Rightarrow> int" where
  \<comment> \<open>the integer nearest to \<open>a / b\<close>, the even one of two that are equally near\<close>
  "round_half_even a b =
     (let q = a div b; r = a mod b
      in if 2 * r < b then q
         else if b < 2 * r then q + 1
         else if even q then q else q + 1)"

definition floor_log2 :: "int \<Rightarrow> int \<Rightarrow> int" where
  \<comment> \<open>the exponent \<open>k\<close> with \<open>2 ^ k \<le> a / b < 2 ^ (k + 1)\<close>, from the bit lengths
      of \<open>a\<close> and \<open>b\<close>\<close>
  "floor_log2 a b =
     (let k = bitlen a - bitlen b
      in if (if 0 \<le> k then b * 2 ^ nat k \<le> a else b \<le> a * 2 ^ nat (- k))
         then k else k - 1)"

record double =
  mantissa :: int
  exponent :: int

definition double_value :: "double \<Rightarrow> real" where
  "double_value d = real_of_int (mantissa d) * pow2 (exponent d)"

definition round_double :: "int \<Rightarrow> int \<Rightarrow> double" where
  "round_double a b =
     (if a = 0 then \<lparr>mantissa = 0, exponent = 0\<rparr>
      else let e = max (floor_log2 a b - 52) (- 1074)
           in \<lparr>mantissa =
                 (if 0 \<le> e then round_half_even a (b * 2 ^ nat e)
                  else round_half_even (a * 2 ^ nat (- e)) b),
               exponent = e\<rparr>)"

text \<open>
  \<^verbatim>\<open>a / b\<close> for two non-negative ints, \<open>b\<close> not zero and the quotient below
  \<open>2 ^ 1024\<close>: Python rounds the exact quotient once.
\<close>

definition int_true_div :: "int \<Rightarrow> int \<Rightarrow> double" where
  "int_true_div a b = round_double a b"

text \<open>
  \<^verbatim>\<open>d * k\<close> for a float and a non-negative int that is a double itself (as 100
  is), the product below \<open>2 ^ 1024\<close>: the exact product, rounded once.
\<close>

definition float_mul_int :: "double \<Rightarrow> int \<Rightarrow> double" where
  "float_mul_int d k =
     (if 0 \<le> exponent d then round_double (mantissa d * k * 2 ^ nat (exponent d)) 1
      else round_double (mantissa d * k) (2 ^ nat (- exponent d)))"

text \<open>
  What \<^verbatim>\<open>float(s)\<close> returns for a text of digits and dots: a finite double, or
  \<^verbatim>\<open>inf\<close> when the nearest double would be \<open>2 ^ 1024\<close> or more.
\<close>

datatype float_result = Finite py_float | Infinity

definition float_of_fraction :: "int \<Rightarrow> int \<Rightarrow> float_result" where
  "float_of_fraction a b =
     (let x = double_value (round_double a b)
      in if real_of_int (2 ^ 1024) \<le> x then Infinity else Finite x)"

text \<open>
  \<^verbatim>\<open>float(s)\<close> for a text of digits and dots, the only texts \<^verbatim>\<open>[\d\.]+\<close>
  captures: digits, optionally one dot and more digits, with a digit somewhere,
  give the double nearest to the decimal number; any other such text raises
  \<^verbatim>\<open>ValueError\<close>.
\<close>

definition py_float :: "string \<Rightarrow> py_error + float_result" where
  "py_float s =
     (let ip = takeWhile is_digit s; rest = dropWhile is_digit s
      in case rest of
           [] \<Rightarrow> if ip = [] then Inl ValueError
                 else Inr (float_of_fraction (digits_value ip) 1)
         | c # fp \<Rightarrow>
             if c = CHR ''.'' \<and> list_all is_digit fp \<and> (ip \<noteq> [] \<or> fp \<noteq> [])
             then Inr (float_of_fraction (digits_value (ip @ fp)) (10 ^ length fp))
             else Inl ValueError)"

section \<open>The log line parser\<close>

text \<open>The dictionary \<^verbatim>\<open>parse_log_line\<close> returns.\<close>

record parsed =
  pool :: string
  release :: string
  status :: int
  upstream_status :: int
  upstream :: string
  request_time :: float_result
  is_5xx :: bool
  timestamp :: datetime

text \<open>
  \<open>parse_log_line max_str_digits now line\<close>: \<open>now\<close> is what \<^verbatim>\<open>datetime.now()\<close>
  returns on line 72. Any exception raised inside the \<^verbatim>\<open>try\<close> block is caught on
  line 74 and the function returns \<^verbatim>\<open>None\<close>.
\<close>

definition parse_log_line :: "nat \<Rightarrow> datetime \<Rightarrow> string \<Rightarrow> parsed option" where
  "parse_log_line max_str_digits now line =
     (let pool_v = (case re_search pool_re line of Some g \<Rightarrow> g | None \<Rightarrow> ''unknown'');
          release_v = (case re_search release_re line of Some g \<Rightarrow> g | None \<Rightarrow> ''unknown'')
      in case (case re_search upstream_status_re line of
                 Some g \<Rightarrow> py_int max_str_digits g | None \<Rightarrow> Inr 0) of
           Inl e \<Rightarrow> None
         | Inr upstream_status_v \<Rightarrow>
        (case (case re_search status_re line of
                 Some g \<Rightarrow> py_int max_str_digits g | None \<Rightarrow> Inr 0) of
           Inl e \<Rightarrow> None
         | Inr status_v \<Rightarrow>
        (let upstream_v =
               (case re_search upstream_re line of Some g \<Rightarrow> g | None \<Rightarrow> ''unknown'')
         in case (case re_search request_time_re line of
                    Some g \<Rightarrow> py_float g | None \<Rightarrow> Inr (Finite 0)) of
           Inl e \<Rightarrow> None
         | Inr request_time_v \<Rightarrow>
             Some \<lparr>pool = pool_v, release = release_v, status = status_v,
                   upstream_status = upstream_status_v, upstream = upstream_v,
                   request_time = request_time_v,
                   is_5xx = (status_v \<ge> 500 \<or> upstream_status_v \<ge> 500),
                   timestamp = now\<rparr>)))"

text \<open>\<open>occurs key line\<close>: the text \<open>key\<close> stands somewhere in \<open>line\<close>.\<close>

fun occurs :: "string \<Rightarrow> string \<Rightarrow> bool" where
  "occurs key [] = (key = [])"
| "occurs key (c # cs) = (take (length key) (c # cs) = key \<or> occurs key cs)"

section \<open>Configuration, state and effects\<close>

text \<open>
  The module-level configuration read from the environment (lines 18 to 22).
  \<^verbatim>\<open>WINDOW_SIZE\<close> is a natural number: with a negative value
  \<^verbatim>\<open>deque(maxlen=WINDOW_SIZE)\<close> raises while the module is loaded and nothing
  below ever runs. \<^verbatim>\<open>ERROR_RATE_THRESHOLD\<close> is a finite float.
\<close>

record config =
  SLACK_WEBHOOK_URL :: "string option"
  ERROR_RATE_THRESHOLD :: py_float
  WINDOW_SIZE :: nat
  ALERT_COOLDOWN_SEC :: int
  MAINTENANCE_MODE :: bool

text \<open>
  The two alert texts, as the values their f-strings format. \<open>Failover_Detected\<close>
  carries the pools "from" and "to", the release, the upstream and the record's
  timestamp (lines 141 to 149); \<open>High_Error_Rate\<close> carries the error rate, the
  threshold, the error count, the window's length, the record's pool and
  \<^verbatim>\<open>WINDOW_SIZE\<close> (lines 166 to 173).
\<close>

datatype message =
    Failover_Detected string string string string datetime
  | High_Error_Rate py_float py_float nat nat string nat

text \<open>What the process prints and sends, in order; each constructor is one source line.\<close>

datatype event =
    Alert_suppressed bool message      \<comment> \<open>line 82, with \<^verbatim>\<open>MAINTENANCE_MODE\<close>\<close>
  | Alert_in_cooldown py_float message \<comment> \<open>line 89, with \<^verbatim>\<open>time_since_last\<close>\<close>
  | Post string message                \<comment> \<open>line 113: \<^verbatim>\<open>requests.post\<close> is called\<close>
  | Slack_alert_sent message           \<comment> \<open>line 120\<close>
  | Failed_to_send_Slack_alert         \<comment> \<open>line 123\<close>
  | Initial_pool_detected string       \<comment> \<open>line 137\<close>

text \<open>
  What one call of \<^verbatim>\<open>send_slack_alert\<close> reads from outside the process: the clock
  on line 87, whether lines 113 to 119 (the request and \<^verbatim>\<open>raise_for_status\<close>)
  complete without raising, and the clock on line 121.
\<close>

record notifier =
  now_cooldown :: datetime
  post_ok :: bool
  now_sent :: datetime

text \<open>
  The module's globals (lines 26 to 31) and the output so far. A key of
  \<^verbatim>\<open>last_alert_times\<close> bound to \<^verbatim>\<open>None\<close> and a missing key are read alike by
  \<^verbatim>\<open>.get\<close> on line 86, so both are an undefined point of the map.
\<close>

record state =
  last_pool :: "string option"
  request_window :: "parsed list"
  last_alert_times :: "string \<rightharpoonup> datetime"
  events :: "event list"

definition initial_state :: state where
  "initial_state =
     \<lparr>last_pool = None, request_window = [], last_alert_times = Map.empty, events = []\<rparr>"

definition emit :: "event \<Rightarrow> state \<Rightarrow> state" where
  "emit e st = st\<lparr>events := events st @ [e]\<rparr>"

definition not_url :: "string option \<Rightarrow> bool" where
  \<comment> \<open>\<^verbatim>\<open>not SLACK_WEBHOOK_URL\<close>: the variable is unset or empty\<close>
  "not_url u = (case u of None \<Rightarrow> True | Some s \<Rightarrow> s = [])"

section \<open>The alert gate: \<^verbatim>\<open>send_slack_alert\<close>\<close>

definition deliver :: "notifier \<Rightarrow> message \<Rightarrow> string \<Rightarrow> state \<Rightarrow> state" where
  \<comment> \<open>lines 112 to 123: the timestamp is written on line 121, inside the \<^verbatim>\<open>try\<close>
      block, so only when nothing before it has raised\<close>
  "deliver env msg alert_type st =
     (let st1 = emit (Post alert_type msg) st
      in if post_ok env
         then (emit (Slack_alert_sent msg) st1)
                \<lparr>last_alert_times := (last_alert_times st1)(alert_type \<mapsto> now_sent env)\<rparr>
         else emit Failed_to_send_Slack_alert st1)"

definition send_slack_alert :: "config \<Rightarrow> notifier \<Rightarrow> message \<Rightarrow> string \<Rightarrow> state \<Rightarrow> state" where
  "send_slack_alert cfg env msg alert_type st =
     (if not_url (SLACK_WEBHOOK_URL cfg) \<or> MAINTENANCE_MODE cfg
      then emit (Alert_suppressed (MAINTENANCE_MODE cfg) msg) st
      else case last_alert_times st alert_type of
             Some last_time \<Rightarrow>
               (let time_since_last = now_cooldown env - last_time
                in if time_since_last < real_of_int (ALERT_COOLDOWN_SEC cfg)
                   then emit (Alert_in_cooldown time_since_last msg) st
                   else deliver env msg alert_type st)
           | None \<Rightarrow> deliver env msg alert_type st)"

text \<open>
  The two checks of the gate as predicates on a call: the first \<^verbatim>\<open>if\<close> (line 81)
  and the cooldown test (lines 86 to 88). The gate permits an alert when the
  call gets past both and reaches the delivery.
\<close>

definition silenced :: "config \<Rightarrow> bool" where
  "silenced cfg = (not_url (SLACK_WEBHOOK_URL cfg) \<or> MAINTENANCE_MODE cfg)"

definition in_cooldown :: "config \<Rightarrow> notifier \<Rightarrow> string \<Rightarrow> state \<Rightarrow> bool" where
  "in_cooldown cfg env alert_type st =
     (case last_alert_times st alert_type of
        None \<Rightarrow> False
      | Some last_time \<Rightarrow>
          now_cooldown env - last_time < real_of_int (ALERT_COOLDOWN_SEC cfg))"

definition permits :: "config \<Rightarrow> notifier \<Rightarrow> string \<Rightarrow> state \<Rightarrow> bool" where
  "permits cfg env alert_type st = (\<not> silenced cfg \<and> \<not> in_cooldown cfg env alert_type st)"

section \<open>The failover tracker: \<^verbatim>\<open>check_failover\<close>\<close>

definition check_failover :: "config \<Rightarrow> notifier \<Rightarrow> parsed \<Rightarrow> state \<Rightarrow> state" where
  "check_failover cfg env parsed_data st =
     (let current_pool = pool parsed_data
      in if current_pool = ''unknown'' then st
         else case last_pool st of
           None \<Rightarrow> emit (Initial_pool_detected current_pool)
                     (st\<lparr>last_pool := Some current_pool\<rparr>)
         | Some previous \<Rightarrow>
             if current_pool \<noteq> previous
             then (send_slack_alert cfg env
                     (Failover_Detected previous current_pool (release parsed_data)
                        (upstream parsed_data) (timestamp parsed_data))
                     ''failover'' st)
                  \<lparr>last_pool := Some current_pool\<rparr>
             else st)"

section \<open>The sliding window: \<^verbatim>\<open>check_error_rate\<close>\<close>

text \<open>
  \<^verbatim>\<open>deque.append\<close> on a deque created with \<^verbatim>\<open>maxlen\<close>: the item is added on the
  right and, when the deque has grown past \<^verbatim>\<open>maxlen\<close>, one item is dropped on the
  left.
\<close>

definition deque_append :: "nat \<Rightarrow> 'a list \<Rightarrow> 'a \<Rightarrow> 'a list" where
  "deque_append maxlen xs x =
     (let ys = xs @ [x] in if maxlen < length ys then tl ys else ys)"

definition error_count_of :: "parsed list \<Rightarrow> nat" where
  \<comment> \<open>line 162\<close>
  "error_count_of window = length (filter is_5xx window)"

text \<open>\<^verbatim>\<open>(k / n) * 100\<close> as line 163 computes it, for ints \<open>k\<close> and \<open>n\<close>, \<open>n\<close> not zero.\<close>

definition rate_percent :: "nat \<Rightarrow> nat \<Rightarrow> py_float" where
  "rate_percent k n = double_value (float_mul_int (int_true_div (int k) (int n)) 100)"

definition error_rate_of :: "parsed list \<Rightarrow> py_float" where
  \<comment> \<open>line 163, for a window that is not empty\<close>
  "error_rate_of window = rate_percent (error_count_of window) (length window)"

definition check_error_rate :: "config \<Rightarrow> notifier \<Rightarrow> parsed \<Rightarrow> state \<Rightarrow> py_error + state" where
  "check_error_rate cfg env parsed_data st =
     (let window = deque_append (WINDOW_SIZE cfg) (request_window st) parsed_data;
          st1 = st\<lparr>request_window := window\<rparr>
      in if length window < WINDOW_SIZE cfg then Inr st1
         else if length window = 0 then Inl ZeroDivisionError
         else if error_rate_of window > ERROR_RATE_THRESHOLD cfg
         then Inr (send_slack_alert cfg env
                     (High_Error_Rate (error_rate_of window) (ERROR_RATE_THRESHOLD cfg)
                        (error_count_of window) (length window) (pool parsed_data)
                        (WINDOW_SIZE cfg))
                     ''error_rate'' st1)
         else Inr st1)"

section \<open>The processing loop\<close>

text \<open>
  Lines 209 to 211 for one parsed record: the failover check, then the error
  rate check, each with the notifier it meets if it sends an alert. An
  exception leaves the loop and ends the process.
\<close>

definition handle_parsed ::
  "config \<Rightarrow> notifier \<times> notifier \<Rightarrow> parsed \<Rightarrow> state \<Rightarrow> py_error + state" where
  "handle_parsed cfg envs parsed_data st =
     check_error_rate cfg (snd envs) parsed_data
       (check_failover cfg (fst envs) parsed_data st)"

fun process_records ::
  "config \<Rightarrow> (parsed \<times> notifier \<times> notifier) list \<Rightarrow> state \<Rightarrow> py_error + state" where
  "process_records cfg [] st = Inr st"
| "process_records cfg ((parsed_data, envs) # rest) st =
     (case handle_parsed cfg envs parsed_data st of
        Inl e \<Rightarrow> Inl e
      | Inr st' \<Rightarrow> process_records cfg rest st')"

text \<open>
  The part of the state the failover tracker and the window own: the current
  pool and the window's contents.
\<close>

definition core :: "state \<Rightarrow> string option \<times> parsed list" where
  "core st = (last_pool st, request_window st)"

section \<open>Example values\<close>

text \<open>
  Concrete inputs for the worked examples below: the configuration with the
  defaults of lines 19 to 22 and a webhook, a notifier whose clock shows \<open>t\<close>
  and whose request succeeds or fails, an alert text, and a parsed record with
  a given pool and status.
\<close>

definition default_config :: config where
  "default_config =
     \<lparr>SLACK_WEBHOOK_URL = Some ''https://hooks.slack.com/services/T0/B0/X0'',
      ERROR_RATE_THRESHOLD = 2, WINDOW_SIZE = 200, ALERT_COOLDOWN_SEC = 300,
      MAINTENANCE_MODE = False\<rparr>"

definition delivering :: "datetime \<Rightarrow> notifier" where
  "delivering t = \<lparr>now_cooldown = t, post_ok = True, now_sent = t\<rparr>"

definition failing :: "datetime \<Rightarrow> notifier" where
  "failing t = \<lparr>now_cooldown = t, post_ok = False, now_sent = t\<rparr>"

definition rate_alert :: message where
  "rate_alert = High_Error_Rate 3 2 6 200 ''blue'' 200"

definition example_record :: "string \<Rightarrow> int \<Rightarrow> parsed" where
  "example_record p s =
     \<lparr>pool = p, release = ''v1.0.2'', status = s, upstream_status = s,
      upstream = ''10.0.0.5:3000'', request_time = Finite 0, is_5xx = (s \<ge> 500),
      timestamp = 0\<rparr>"

definition unset_config :: config where
  "unset_config = default_config\<lparr>SLACK_WEBHOOK_URL := None, WINDOW_SIZE := 1\<rparr>"

definition small_config :: config where
  "small_config = default_config\<lparr>ERROR_RATE_THRESHOLD := 50, WINDOW_SIZE := 3\<rparr>"

definition muted_config :: config where
  "muted_config =
     \<lparr>SLACK_WEBHOOK_URL = None, ERROR_RATE_THRESHOLD = 99, WINDOW_SIZE = 3,
      ALERT_COOLDOWN_SEC = 0, MAINTENANCE_MODE = True\<rparr>"

text \<open>An access log line that \<^verbatim>\<open>parse_log_line\<close> turns into \<open>example_record p s\<close>.\<close>

definition example_line :: "string \<Rightarrow> string \<Rightarrow> string" where
  "example_line p s =
     CHR 0x22 # ''GET / HTTP/1.1'' @ CHR 0x22 # '' '' @ s @ '' pool='' @ p @
     '' release=v1.0.2 upstream_status='' @ s @ '' upstream=10.0.0.5:3000 request_time=0''"

text \<open>A line whose upstream status has one digit more than the default limit.\<close>

definition long_status_line :: string where
  "long_status_line = ''upstream_status='' @ replicate 4301 (CHR ''5'')"

text \<open>
  The default window of 200 with a threshold of 7, and 199 records of which 13
  are errors: one more error makes 14 errors in 200, a rate of exactly 7.
\<close>

definition seven_config :: config where
  "seven_config = default_config\<lparr>ERROR_RATE_THRESHOLD := 7\<rparr>"

definition boundary_window :: "parsed list" where
  "boundary_window =
     replicate 186 (example_record ''blue'' 200) @ replicate 13 (example_record ''blue'' 502)"

section \<open>Rounding to double precision\<close>

lemma pow2_powr: "pow2 e = 2 powr (real_of_int e)"
proof (cases "0 \<le> e")
  case True
  then have "real_of_int e = real (nat e)" by simp
  then have "2 powr real_of_int e = 2 powr real (nat e)" by (simp only:)
  also have "\<dots> = 2 ^ nat e" by (simp add: powr_realpow)
  finally show ?thesis using True by (simp add: pow2_def)
next
  case False
  then have "real_of_int e = - real (nat (- e))" by simp
  then have "2 powr real_of_int e = 2 powr (- real (nat (- e)))" by (simp only:)
  also have "\<dots> = 1 / 2 ^ nat (- e)" by (simp add: powr_minus powr_realpow divide_inverse)
  finally show ?thesis using False by (simp add: pow2_def)
qed

lemma pow2_pos: "0 < pow2 e"
  by (simp add: pow2_powr)

lemma pow2_add: "pow2 (x + y) = pow2 x * pow2 y"
  by (simp add: pow2_powr powr_add)

lemma pow2_mono: "x \<le> y \<Longrightarrow> pow2 x \<le> pow2 y"
  by (simp add: pow2_powr)

lemma pow2_less_imp: "pow2 x < pow2 y \<Longrightarrow> x < y"
  by (simp add: pow2_powr)

lemma pow2_nat: "pow2 (int n) = 2 ^ n"
  by (simp add: pow2_def)

lemma round_half_even_error:
  assumes "0 < b"
  shows "\<bar>real_of_int (round_half_even a b) - real_of_int a / real_of_int b\<bar> \<le> 1 / 2"
proof -
  define q r where "q = a div b" and "r = a mod b"
  have r: "0 \<le> r" "r < b" using assms by (simp_all add: r_def)
  have "a = q * b + r" by (simp add: q_def r_def)
  then have "real_of_int a = real_of_int q * real_of_int b + real_of_int r"
    by (metis of_int_add of_int_mult)
  then have ab: "real_of_int a / real_of_int b = real_of_int q + real_of_int r / real_of_int b"
    using assms by (simp add: field_simps)
  have rb: "0 \<le> real_of_int r / real_of_int b" "real_of_int r / real_of_int b < 1"
    using r assms by simp_all
  consider "2 * r < b" | "b < 2 * r" | "2 * r = b" by linarith
  then show ?thesis
  proof cases
    case 1
    then have "real_of_int r / real_of_int b < 1 / 2" using assms by (simp add: field_simps)
    moreover have "round_half_even a b = q"
      using 1 by (simp add: round_half_even_def Let_def q_def r_def)
    ultimately show ?thesis using ab rb by simp
  next
    case 2
    then have "1 / 2 < real_of_int r / real_of_int b" using assms by (simp add: field_simps)
    moreover have "round_half_even a b = q + 1"
      using 2 by (simp add: round_half_even_def Let_def q_def r_def)
    ultimately show ?thesis using ab rb by simp
  next
    case 3
    then have "real_of_int r / real_of_int b = 1 / 2" using assms by (simp add: field_simps)
    moreover have "round_half_even a b = q \<or> round_half_even a b = q + 1"
      using 3 by (simp add: round_half_even_def Let_def q_def r_def)
    ultimately show ?thesis using ab by auto
  qed
qed

lemma round_half_even_nonneg:
  "0 \<le> a \<Longrightarrow> 0 < b \<Longrightarrow> 0 \<le> round_half_even a b"
  by (auto simp: round_half_even_def Let_def pos_imp_zdiv_nonneg_iff intro: add_nonneg_nonneg)

lemma floor_log2_le:
  assumes "0 < a" and "0 < b"
  shows "pow2 (floor_log2 a b) \<le> real_of_int a / real_of_int b"
proof -
  define k where "k = bitlen a - bitlen b"
  show ?thesis
  proof (cases "if 0 \<le> k then b * 2 ^ nat k \<le> a else b \<le> a * 2 ^ nat (- k)")
    case True
    have fl: "floor_log2 a b = k"
      unfolding floor_log2_def Let_def k_def [symmetric] using True by simp
    show ?thesis
    proof (cases "0 \<le> k")
      case k: True
      with True have "b * 2 ^ nat k \<le> a" by simp
      then have "real_of_int b * 2 ^ nat k \<le> real_of_int a"
        using of_int_le_iff [where ?'a = real, of "b * 2 ^ nat k" a] by simp
      then show ?thesis using assms k by (simp add: fl pow2_def field_simps)
    next
      case k: False
      with True have "b \<le> a * 2 ^ nat (- k)" by simp
      then have "real_of_int b \<le> real_of_int a * 2 ^ nat (- k)"
        using of_int_le_iff [where ?'a = real, of b "a * 2 ^ nat (- k)"] by simp
      then show ?thesis using assms k by (simp add: fl pow2_def field_simps)
    qed
  next
    case False
    have fl: "floor_log2 a b = k - 1"
      unfolding floor_log2_def Let_def k_def [symmetric] using False by simp
    have la: "1 \<le> bitlen a" using assms(1) by (simp add: bitlen_alt_def)
    have lb: "0 \<le> bitlen b" by (rule bitlen_nonneg)
    have "2 ^ nat (bitlen a - 1) \<le> a" using bitlen_bounds [OF assms(1)] ..
    then have a: "pow2 (bitlen a - 1) \<le> real_of_int a"
      using la by (simp add: pow2_def)
    have "b < 2 ^ nat (bitlen b)" using bitlen_bounds [OF assms(2)] ..
    then have b: "real_of_int b \<le> pow2 (bitlen b)"
      using lb by (simp add: pow2_def)
    have "pow2 (k - 1) * real_of_int b \<le> pow2 (k - 1) * pow2 (bitlen b)"
      using b pow2_pos [of "k - 1"] by simp
    also have "\<dots> = pow2 (bitlen a - 1)"
      by (simp add: pow2_add [symmetric] k_def)
    finally have "pow2 (k - 1) * real_of_int b \<le> real_of_int a" using a by simp
    then show ?thesis using assms by (simp add: fl field_simps)
  qed
qed

lemma floor_log2_gt:
  assumes "0 < a" and "0 < b"
  shows "real_of_int a / real_of_int b < pow2 (floor_log2 a b + 1)"
proof -
  define k where "k = bitlen a - bitlen b"
  show ?thesis
  proof (cases "if 0 \<le> k then b * 2 ^ nat k \<le> a else b \<le> a * 2 ^ nat (- k)")
    case True
    have fl: "floor_log2 a b = k"
      unfolding floor_log2_def Let_def k_def [symmetric] using True by simp
    have la: "0 \<le> bitlen a" by (rule bitlen_nonneg)
    have lb: "1 \<le> bitlen b" using assms(2) by (simp add: bitlen_alt_def)
    have "a < 2 ^ nat (bitlen a)" using bitlen_bounds [OF assms(1)] ..
    then have a: "real_of_int a < pow2 (bitlen a)"
      using la by (simp add: pow2_def)
    have "2 ^ nat (bitlen b - 1) \<le> b" using bitlen_bounds [OF assms(2)] ..
    then have b: "pow2 (bitlen b - 1) \<le> real_of_int b"
      using lb by (simp add: pow2_def)
    have "pow2 (bitlen a) = pow2 (k + 1) * pow2 (bitlen b - 1)"
      by (simp add: pow2_add [symmetric] k_def)
    also have "\<dots> \<le> pow2 (k + 1) * real_of_int b"
      using b pow2_pos [of "k + 1"] by simp
    finally have "real_of_int a < pow2 (k + 1) * real_of_int b" using a by simp
    then show ?thesis using assms by (simp add: fl field_simps)
  next
    case False
    have fl: "floor_log2 a b = k - 1"
      unfolding floor_log2_def Let_def k_def [symmetric] using False by simp
    show ?thesis
    proof (cases "0 \<le> k")
      case k: True
      with False have "a < b * 2 ^ nat k" by simp
      then have "real_of_int a < real_of_int b * 2 ^ nat k"
        using of_int_less_iff [where ?'a = real, of a "b * 2 ^ nat k"] by simp
      then show ?thesis using assms k by (simp add: fl pow2_def field_simps)
    next
      case k: False
      with False have "a * 2 ^ nat (- k) < b" by simp
      then have "real_of_int a * 2 ^ nat (- k) < real_of_int b"
        using of_int_less_iff [where ?'a = real, of "a * 2 ^ nat (- k)" b] by simp
      then show ?thesis using assms k by (simp add: fl pow2_def field_simps)
    qed
  qed
qed

text \<open>\<open>floor_log2 a b\<close> is the exponent of the fraction: the floor of its binary logarithm.\<close>

lemma floor_log2_correct:
  assumes "0 < a" and "0 < b"
  shows "floor_log2 a b = \<lfloor>log 2 (real_of_int a / real_of_int b)\<rfloor>"
proof -
  let ?x = "real_of_int a / real_of_int b"
  have x: "0 < ?x" using assms by simp
  have "2 powr real_of_int (floor_log2 a b) \<le> ?x"
    using floor_log2_le [OF assms] by (simp add: pow2_powr)
  then have lo: "real_of_int (floor_log2 a b) \<le> log 2 ?x"
    using x by (simp add: le_log_iff)
  have "?x < 2 powr real_of_int (floor_log2 a b + 1)"
    using floor_log2_gt [OF assms] by (simp only: pow2_powr)
  then have hi: "log 2 ?x < real_of_int (floor_log2 a b) + 1"
    using x by (simp add: log_less_iff)
  from lo hi show ?thesis by (intro floor_unique [symmetric]) simp_all
qed

lemma round_double_error:
  assumes "0 \<le> a" and "0 < b"
  shows "\<bar>double_value (round_double a b) - real_of_int a / real_of_int b\<bar>
           \<le> pow2 (exponent (round_double a b)) / 2"
proof (cases "a = 0")
  case True
  then show ?thesis using pow2_pos [of 0] by (simp add: round_double_def double_value_def)
next
  case False
  define e where "e = max (floor_log2 a b - 52) (- 1074)"
  show ?thesis
  proof (cases "0 \<le> e")
    case True
    have rd: "round_double a b = \<lparr>mantissa = round_half_even a (b * 2 ^ nat e), exponent = e\<rparr>"
      using False True by (simp add: round_double_def e_def Let_def)
    have "0 < b * 2 ^ nat e" using assms(2) by simp
    from round_half_even_error [OF this, of a]
    have "\<bar>real_of_int (round_half_even a (b * 2 ^ nat e))
             - real_of_int a / (real_of_int b * 2 ^ nat e)\<bar> \<le> 1 / 2"
      by simp
    then have "\<bar>real_of_int (round_half_even a (b * 2 ^ nat e))
             - real_of_int a / (real_of_int b * 2 ^ nat e)\<bar> * 2 ^ nat e \<le> 1 / 2 * 2 ^ nat e"
      by (intro mult_right_mono) simp_all
    then have "\<bar>real_of_int (round_half_even a (b * 2 ^ nat e)) * 2 ^ nat e
             - real_of_int a / real_of_int b\<bar> \<le> 2 ^ nat e / 2"
      using assms(2) by (simp add: abs_mult [symmetric] left_diff_distrib del: abs_mult)
         (simp add: abs_mult [symmetric] field_simps)
    then show ?thesis using True by (simp add: rd double_value_def pow2_def)
  next
    case neg: False
    have rd: "round_double a b = \<lparr>mantissa = round_half_even (a * 2 ^ nat (- e)) b, exponent = e\<rparr>"
      using False neg by (simp add: round_double_def e_def Let_def)
    from round_half_even_error [OF assms(2), of "a * 2 ^ nat (- e)"]
    have "\<bar>real_of_int (round_half_even (a * 2 ^ nat (- e)) b)
             - real_of_int a * 2 ^ nat (- e) / real_of_int b\<bar> \<le> 1 / 2"
      by simp
    then have "\<bar>real_of_int (round_half_even (a * 2 ^ nat (- e)) b)
             - real_of_int a * 2 ^ nat (- e) / real_of_int b\<bar> / 2 ^ nat (- e)
             \<le> 1 / 2 / 2 ^ nat (- e)"
      by (intro divide_right_mono) simp_all
    then have "\<bar>real_of_int (round_half_even (a * 2 ^ nat (- e)) b) / 2 ^ nat (- e)
             - real_of_int a / real_of_int b\<bar> \<le> 1 / 2 ^ nat (- e) / 2"
      by (simp add: abs_divide [symmetric] diff_divide_distrib del: abs_divide)
         (simp add: field_simps)
    then show ?thesis using neg by (simp add: rd double_value_def pow2_def)
  qed
qed

lemma round_double_exponent:
  assumes "0 < a" and "0 < b" and "real_of_int a / real_of_int b < pow2 j" and "- 1021 \<le> j"
  shows "exponent (round_double a b) \<le> j - 53"
proof -
  have "pow2 (floor_log2 a b) < pow2 j"
    using floor_log2_le [OF assms(1,2)] assms(3) by simp
  then have "floor_log2 a b < j" by (rule pow2_less_imp)
  then show ?thesis using assms(1,4) by (simp add: round_double_def Let_def)
qed

lemma round_double_zero [simp]: "double_value (round_double 0 b) = 0"
  by (simp add: round_double_def double_value_def)

lemma round_double_mantissa_nonneg:
  "0 \<le> a \<Longrightarrow> 0 < b \<Longrightarrow> 0 \<le> mantissa (round_double a b)"
  by (simp add: round_double_def Let_def round_half_even_nonneg)

lemma rate_percent_error:
  assumes "c \<le> n" and "0 < n"
  shows "\<bar>rate_percent c n - 100 * real c / real n\<bar> \<le> 1 / 2 ^ 45"
proof (cases "c = 0")
  case True
  then show ?thesis
    by (simp add: rate_percent_def int_true_div_def float_mul_int_def round_double_def
          double_value_def)
next
  case False
  define d where "d = round_double (int c) (int n)"
  define x where "x = double_value d"
  have c: "0 < int c" "0 < int n" using False assms(2) by simp_all
  have q: "real_of_int (int c) / real_of_int (int n) \<le> 1" using assms by simp
  then have "real_of_int (int c) / real_of_int (int n) < pow2 1" by (simp add: pow2_def)
  from round_double_exponent [OF c this]
  have e1: "exponent d \<le> - 52" by (simp add: d_def)
  have "\<bar>x - real_of_int (int c) / real_of_int (int n)\<bar> \<le> pow2 (exponent d) / 2"
    unfolding x_def d_def by (rule round_double_error) (use c in simp_all)
  also have "\<dots> \<le> pow2 (- 52) / 2" using pow2_mono [OF e1] by simp
  finally have err1: "\<bar>x - real c / real n\<bar> \<le> 1 / 2 ^ 53" by (simp add: pow2_def)
  have "x - real c / real n \<le> \<bar>x - real c / real n\<bar>" by (rule abs_ge_self)
  from this err1 have "x - real c / real n \<le> 1 / 2 ^ 53" by (rule order_trans)
  moreover have "real c / real n \<le> 1" using assms by simp
  ultimately have x1: "x \<le> 1 + 1 / 2 ^ 53" by linarith
  have m: "0 \<le> mantissa d"
    unfolding d_def by (rule round_double_mantissa_nonneg) (use c in simp_all)
  define a2 where "a2 = mantissa d * 100"
  define b2 where "b2 = (2::int) ^ nat (- exponent d)"
  have b2: "0 < b2" by (simp add: b2_def)
  have rate: "rate_percent c n = double_value (round_double a2 b2)"
    using e1 by (simp add: rate_percent_def int_true_div_def float_mul_int_def d_def a2_def b2_def)
  have ratio: "real_of_int a2 / real_of_int b2 = 100 * x"
    using e1 by (simp add: a2_def b2_def x_def double_value_def pow2_def)
  have err2: "\<bar>rate_percent c n - 100 * x\<bar> \<le> 1 / 2 ^ 47"
  proof (cases "a2 = 0")
    case True
    then have "x = 0" using ratio b2 by simp
    then show ?thesis using True by (simp add: rate)
  next
    case False
    then have a2: "0 < a2" using m by (simp add: a2_def)
    have "real_of_int a2 / real_of_int b2 < pow2 7"
      using x1 by (simp add: ratio pow2_def)
    from round_double_exponent [OF a2 b2 this]
    have e2: "exponent (round_double a2 b2) \<le> - 46" by simp
    have "\<bar>rate_percent c n - real_of_int a2 / real_of_int b2\<bar>
            \<le> pow2 (exponent (round_double a2 b2)) / 2"
      unfolding rate by (rule round_double_error) (use a2 b2 in simp_all)
    also have "\<dots> \<le> pow2 (- 46) / 2" using pow2_mono [OF e2] by simp
    finally show ?thesis by (simp add: ratio pow2_def)
  qed
  have tri: "\<bar>p - 100 * q\<bar> \<le> \<bar>p - 100 * x\<bar> + 100 * \<bar>x - q\<bar>" for p q :: real
  proof -
    have "p - 100 * q = (p - 100 * x) + 100 * (x - q)" by (simp add: algebra_simps)
    then have "\<bar>p - 100 * q\<bar> = \<bar>(p - 100 * x) + 100 * (x - q)\<bar>" by (simp only:)
    also have "\<dots> \<le> \<bar>p - 100 * x\<bar> + \<bar>100 * (x - q)\<bar>" by (rule abs_triangle_ineq)
    also have "\<bar>100 * (x - q)\<bar> = 100 * \<bar>x - q\<bar>" by (simp only: abs_mult abs_numeral)
    finally show ?thesis .
  qed
  have "\<bar>rate_percent c n - 100 * (real c / real n)\<bar>
          \<le> \<bar>rate_percent c n - 100 * x\<bar> + 100 * \<bar>x - real c / real n\<bar>"
    by (rule tri)
  also have "\<dots> \<le> 1 / 2 ^ 47 + 100 * (1 / 2 ^ 53)"
    using err1 err2 by (intro add_mono mult_left_mono) simp_all
  also have "\<dots> \<le> 1 / 2 ^ 45" by simp
  finally show ?thesis by simp
qed


text \<open>The rates of the worked examples, as the doubles line 163 computes.\<close>

lemma rate_percent_1_1: "rate_percent (Suc 0) (Suc 0) = 100"
  by code_simp

lemma rate_percent_2_3: "rate_percent 2 3 = 2345624805922133 / 35184372088832"
  by code_simp

lemma rate_percent_2_3_Suc:
  "rate_percent (Suc (Suc 0)) (Suc (Suc (Suc 0))) = 2345624805922133 / 35184372088832"
  using rate_percent_2_3 by (simp add: numeral_2_eq_2 numeral_3_eq_3)

lemma rate_percent_14_200: "rate_percent 14 200 = 7 + 1 / 2 ^ 50"
  by code_simp

section \<open>Basic facts about the gate\<close>

lemma emit_simps [simp]:
  "last_pool (emit e st) = last_pool st"
  "request_window (emit e st) = request_window st"
  "last_alert_times (emit e st) = last_alert_times st"
  "events (emit e st) = events st @ [e]"
  by (simp_all add: emit_def)

lemma deliver_simps [simp]:
  "last_pool (deliver env msg c st) = last_pool st"
  "request_window (deliver env msg c st) = request_window st"
  "last_alert_times (deliver env msg c st) =
     (if post_ok env then (last_alert_times st)(c \<mapsto> now_sent env) else last_alert_times st)"
  "events (deliver env msg c st) =
     events st @ [Post c msg, if post_ok env then Slack_alert_sent msg else Failed_to_send_Slack_alert]"
  by (simp_all add: deliver_def Let_def)

lemma send_slack_alert_silenced:
  "silenced cfg \<Longrightarrow>
   send_slack_alert cfg env msg c st = emit (Alert_suppressed (MAINTENANCE_MODE cfg) msg) st"
  by (simp add: send_slack_alert_def silenced_def)

lemma send_slack_alert_permits:
  "permits cfg env c st \<Longrightarrow> send_slack_alert cfg env msg c st = deliver env msg c st"
  by (auto simp: send_slack_alert_def permits_def silenced_def in_cooldown_def Let_def
           split: option.splits)

lemma send_slack_alert_cooldown:
  "\<not> silenced cfg \<Longrightarrow> last_alert_times st c = Some t \<Longrightarrow>
   send_slack_alert cfg env msg c st =
     (if now_cooldown env - t < real_of_int (ALERT_COOLDOWN_SEC cfg)
      then emit (Alert_in_cooldown (now_cooldown env - t) msg) st
      else deliver env msg c st)"
  by (simp add: send_slack_alert_def silenced_def Let_def)

lemma send_slack_alert_core [simp]:
  "last_pool (send_slack_alert cfg env msg c st) = last_pool st"
  "request_window (send_slack_alert cfg env msg c st) = request_window st"
  by (simp_all add: send_slack_alert_def Let_def split: option.splits)

lemma deliver_not_emit: "deliver env msg c st \<noteq> emit e st"
proof
  assume "deliver env msg c st = emit e st"
  then have "events (deliver env msg c st) = events (emit e st)" by simp
  then show False by simp
qed

lemma send_slack_alert_events_grow:
  "events (send_slack_alert cfg env msg c st) \<noteq> events st"
  by (simp add: send_slack_alert_def Let_def split: option.splits)

section \<open>The alert gate\<close>

text \<open>
  C8. While \<^verbatim>\<open>MAINTENANCE_MODE\<close> is set, every call of \<^verbatim>\<open>send_slack_alert\<close>, for
  every category, message, notifier and state, only prints the suppression line:
  nothing is posted and no time is recorded, whether or not a time is recorded
  for the category and whatever the cooldown would decide. The test on line 81
  comes before the cooldown test.
\<close>

theorem maintenance_suppresses_everything:
  "MAINTENANCE_MODE cfg \<Longrightarrow>
   send_slack_alert cfg env msg alert_type st = emit (Alert_suppressed True msg) st"
  by (simp add: send_slack_alert_def)

text \<open>
  C8, instances: in maintenance mode the first alert of a category is
  suppressed although the notifier would deliver it, and an alert that comes
  100 seconds after a recorded one is suppressed for maintenance, not for
  cooldown.
\<close>

theorem maintenance_suppresses_everything_witness:
  "MAINTENANCE_MODE (default_config\<lparr>MAINTENANCE_MODE := True\<rparr>) \<and>
   send_slack_alert (default_config\<lparr>MAINTENANCE_MODE := True\<rparr>) (delivering 0) rate_alert
       ''error_rate'' initial_state
     = emit (Alert_suppressed True rate_alert) initial_state \<and>
   send_slack_alert (default_config\<lparr>MAINTENANCE_MODE := True\<rparr>) (delivering 100) rate_alert
       ''error_rate'' (initial_state\<lparr>last_alert_times := [''error_rate'' \<mapsto> 0]\<rparr>)
     = emit (Alert_suppressed True rate_alert)
         (initial_state\<lparr>last_alert_times := [''error_rate'' \<mapsto> 0]\<rparr>)"
  using maintenance_suppresses_everything
          [of "default_config\<lparr>MAINTENANCE_MODE := True\<rparr>" "delivering 0" rate_alert
              "''error_rate''" initial_state]
        maintenance_suppresses_everything
          [of "default_config\<lparr>MAINTENANCE_MODE := True\<rparr>" "delivering 100" rate_alert
              "''error_rate''" "initial_state\<lparr>last_alert_times := [''error_rate'' \<mapsto> 0]\<rparr>"]
  by simp

text \<open>
  C1, as stated, fails: with the webhook set and maintenance off the gate
  permits the first \<^verbatim>\<open>error_rate\<close> alert, the delivery fails, and no time is
  recorded for the category.
\<close>

theorem failed_delivery_records_nothing:
  "permits default_config (failing 0) ''error_rate'' initial_state \<and>
   last_alert_times
     (send_slack_alert default_config (failing 0) rate_alert ''error_rate'' initial_state)
     ''error_rate'' = None"
  by (simp add: send_slack_alert_def permits_def silenced_def in_cooldown_def not_url_def
        default_config_def failing_def initial_state_def)

text \<open>
  C1, amended. Whenever the gate permits an alert, the category's time is set to
  the clock read after the delivery if the delivery succeeds; if it fails, the
  recorded times are left exactly as they were, so nothing is rolled back and
  the failed attempt does not count against the cooldown.
\<close>

theorem timestamp_only_after_delivery:
  "permits cfg env alert_type st \<Longrightarrow>
   last_alert_times (send_slack_alert cfg env msg alert_type st) =
     (if post_ok env then (last_alert_times st)(alert_type \<mapsto> now_sent env)
      else last_alert_times st)"
  by (simp add: send_slack_alert_permits)

text \<open>C1, an instance: a permitted and delivered alert records the time 7.\<close>

theorem timestamp_only_after_delivery_witness:
  "permits default_config (delivering 7) ''failover'' initial_state \<and>
   last_alert_times
     (send_slack_alert default_config (delivering 7) rate_alert ''failover'' initial_state)
     ''failover'' = Some 7"
proof -
  have p: "permits default_config (delivering 7) ''failover'' initial_state"
    by (simp add: permits_def silenced_def in_cooldown_def not_url_def
          default_config_def initial_state_def)
  show ?thesis
    using p timestamp_only_after_delivery [OF p, of rate_alert]
    by (simp add: delivering_def initial_state_def)
qed

text \<open>
  C7, as stated, fails: with a cooldown of 300 seconds, a call at time 0 that the
  gate permits but whose delivery fails is followed by a call at time 100 that
  the gate permits again, although it lies within the cooldown.
\<close>

theorem cooldown_counterexample:
  "permits default_config (failing 0) ''error_rate'' initial_state \<and>
   permits default_config (delivering 100) ''error_rate''
     (send_slack_alert default_config (failing 0) rate_alert ''error_rate'' initial_state) \<and>
   now_cooldown (delivering 100) - now_cooldown (failing 0)
     < real_of_int (ALERT_COOLDOWN_SEC default_config)"
  by (simp add: send_slack_alert_def permits_def silenced_def in_cooldown_def not_url_def
        default_config_def failing_def delivering_def initial_state_def)

text \<open>
  C7, amended. When the gate is not silenced (webhook set, maintenance off) and
  a time \<open>t\<close> is recorded for the category, the call is suppressed for cooldown
  if and only if \<open>now - t\<close> is less than the cooldown, and otherwise goes on to
  the delivery. Of two consecutive calls for one category, when the first is
  permitted and delivered, the second is suppressed if it comes within the
  cooldown of the recorded time and is permitted again once the cooldown has
  elapsed.
\<close>

theorem cooldown_gate:
  assumes "\<not> silenced cfg"
  shows "(last_alert_times st c = Some t \<longrightarrow>
            (send_slack_alert cfg env msg c st
               = emit (Alert_in_cooldown (now_cooldown env - t) msg) st)
            = (now_cooldown env - t < real_of_int (ALERT_COOLDOWN_SEC cfg))) \<and>
         (last_alert_times st c = Some t \<longrightarrow>
            \<not> now_cooldown env - t < real_of_int (ALERT_COOLDOWN_SEC cfg) \<longrightarrow>
            send_slack_alert cfg env msg c st = deliver env msg c st) \<and>
         (permits cfg env1 c st \<longrightarrow> post_ok env1 \<longrightarrow>
            send_slack_alert cfg env2 msg2 c (send_slack_alert cfg env1 msg1 c st)
              = (if now_cooldown env2 - now_sent env1 < real_of_int (ALERT_COOLDOWN_SEC cfg)
                 then emit (Alert_in_cooldown (now_cooldown env2 - now_sent env1) msg2)
                        (send_slack_alert cfg env1 msg1 c st)
                 else deliver env2 msg2 c (send_slack_alert cfg env1 msg1 c st)))"
proof (intro conjI impI)
  assume t: "last_alert_times st c = Some t"
  show "(send_slack_alert cfg env msg c st
               = emit (Alert_in_cooldown (now_cooldown env - t) msg) st)
            = (now_cooldown env - t < real_of_int (ALERT_COOLDOWN_SEC cfg))"
    using send_slack_alert_cooldown [OF assms t, of env msg]
    by (simp add: deliver_not_emit)
next
  assume "last_alert_times st c = Some t"
    and "\<not> now_cooldown env - t < real_of_int (ALERT_COOLDOWN_SEC cfg)"
  then show "send_slack_alert cfg env msg c st = deliver env msg c st"
    using send_slack_alert_cooldown [OF assms, of st c t env msg] by simp
next
  assume p: "permits cfg env1 c st" and ok: "post_ok env1"
  let ?st1 = "send_slack_alert cfg env1 msg1 c st"
  have "last_alert_times ?st1 c = Some (now_sent env1)"
    using p ok by (simp add: send_slack_alert_permits)
  from send_slack_alert_cooldown [OF assms this, of env2 msg2]
  show "send_slack_alert cfg env2 msg2 c ?st1
              = (if now_cooldown env2 - now_sent env1 < real_of_int (ALERT_COOLDOWN_SEC cfg)
                 then emit (Alert_in_cooldown (now_cooldown env2 - now_sent env1) msg2) ?st1
                 else deliver env2 msg2 c ?st1)" .
qed

text \<open>
  C7, an instance (Scenario C): cooldown 300, calls at times 0, 100 and 301 with
  a notifier that delivers: sent, suppressed for cooldown, sent.
\<close>

theorem cooldown_gate_witness:
  "\<not> silenced default_config \<and>
   permits default_config (delivering 0) ''error_rate'' initial_state \<and>
   post_ok (delivering 0) \<and>
   events
     (send_slack_alert default_config (delivering 301) rate_alert ''error_rate''
       (send_slack_alert default_config (delivering 100) rate_alert ''error_rate''
         (send_slack_alert default_config (delivering 0) rate_alert ''error_rate''
            initial_state)))
     = [Post ''error_rate'' rate_alert, Slack_alert_sent rate_alert,
        Alert_in_cooldown 100 rate_alert,
        Post ''error_rate'' rate_alert, Slack_alert_sent rate_alert]"
proof -
  define st1 where
    "st1 = send_slack_alert default_config (delivering 0) rate_alert ''error_rate''
             initial_state"
  define st2 where
    "st2 = send_slack_alert default_config (delivering 100) rate_alert ''error_rate'' st1"
  have s: "\<not> silenced default_config"
    by (simp add: silenced_def not_url_def default_config_def)
  have p: "permits default_config (delivering 0) ''error_rate'' initial_state"
    using s by (simp add: permits_def in_cooldown_def initial_state_def)
  have ok: "post_ok (delivering 0)" by (simp add: delivering_def)
  have e1: "events st1 = [Post ''error_rate'' rate_alert, Slack_alert_sent rate_alert]"
    and t1: "last_alert_times st1 ''error_rate'' = Some 0"
    unfolding st1_def send_slack_alert_permits [OF p]
    by (simp_all add: delivering_def initial_state_def)
  have "st2 = emit (Alert_in_cooldown 100 rate_alert) st1"
    using cooldown_gate [OF s, of initial_state "''error_rate''" _ _ _ "delivering 0"
                           "delivering 100" rate_alert rate_alert] p ok
    unfolding st2_def st1_def by (simp add: delivering_def default_config_def)
  then have e2: "events st2 = events st1 @ [Alert_in_cooldown 100 rate_alert]"
    and t2: "last_alert_times st2 ''error_rate'' = Some 0"
    using t1 by simp_all
  have "send_slack_alert default_config (delivering 301) rate_alert ''error_rate'' st2
          = deliver (delivering 301) rate_alert ''error_rate'' st2"
    using cooldown_gate [OF s, of st2 "''error_rate''" 0 "delivering 301" rate_alert] t2
    by (simp add: delivering_def default_config_def)
  then have "events (send_slack_alert default_config (delivering 301) rate_alert
                       ''error_rate'' st2)
               = [Post ''error_rate'' rate_alert, Slack_alert_sent rate_alert,
                  Alert_in_cooldown 100 rate_alert,
                  Post ''error_rate'' rate_alert, Slack_alert_sent rate_alert]"
    using e1 e2 by (simp add: delivering_def)
  then show ?thesis
    using s p ok unfolding st2_def st1_def by simp
qed

section \<open>The failover tracker\<close>

lemma check_failover_unknown:
  "pool r = ''unknown'' \<Longrightarrow> check_failover cfg env r st = st"
  by (simp add: check_failover_def Let_def)

lemma check_failover_initial:
  "pool r \<noteq> ''unknown'' \<Longrightarrow> last_pool st = None \<Longrightarrow>
   check_failover cfg env r st =
     emit (Initial_pool_detected (pool r)) (st\<lparr>last_pool := Some (pool r)\<rparr>)"
  by (simp add: check_failover_def Let_def)

lemma check_failover_switch:
  "pool r \<noteq> ''unknown'' \<Longrightarrow> last_pool st = Some p \<Longrightarrow> pool r \<noteq> p \<Longrightarrow>
   check_failover cfg env r st =
     (send_slack_alert cfg env
        (Failover_Detected p (pool r) (release r) (upstream r) (timestamp r))
        ''failover'' st)\<lparr>last_pool := Some (pool r)\<rparr>"
  by (simp add: check_failover_def Let_def)

lemma check_failover_same:
  "last_pool st = Some (pool r) \<Longrightarrow> check_failover cfg env r st = st"
  by (simp add: check_failover_def Let_def)

lemma check_failover_request_window [simp]:
  "request_window (check_failover cfg env r st) = request_window st"
  by (simp add: check_failover_def Let_def split: option.splits)

lemma check_failover_last_pool:
  "last_pool (check_failover cfg env r st) =
     (if pool r = ''unknown'' then last_pool st else Some (pool r))"
  by (simp add: check_failover_def Let_def split: option.splits)

lemma check_error_rate_Inr:
  assumes "check_error_rate cfg env r st = Inr st'"
  shows "last_pool st' = last_pool st"
    and "request_window st' = deque_append (WINDOW_SIZE cfg) (request_window st) r"
  using assms by (auto simp: check_error_rate_def Let_def split: if_splits)

lemma check_error_rate_Inl:
  "check_error_rate cfg env r st = Inl e \<Longrightarrow> WINDOW_SIZE cfg = 0 \<and> e = ZeroDivisionError"
  by (auto simp: check_error_rate_def Let_def split: if_splits)

lemma check_error_rate_total:
  "0 < WINDOW_SIZE cfg \<Longrightarrow> \<exists>st'. check_error_rate cfg env r st = Inr st'"
  by (cases "check_error_rate cfg env r st") (auto dest: check_error_rate_Inl)

lemma handle_parsed_Inr:
  assumes "handle_parsed cfg envs r st = Inr st'"
  shows "last_pool st' = (if pool r = ''unknown'' then last_pool st else Some (pool r))"
    and "request_window st' = deque_append (WINDOW_SIZE cfg) (request_window st) r"
  using assms check_error_rate_Inr [of cfg "snd envs" r "check_failover cfg (fst envs) r st" st']
  by (simp_all add: handle_parsed_def check_failover_last_pool)

lemma handle_parsed_total:
  "0 < WINDOW_SIZE cfg \<Longrightarrow> \<exists>st'. handle_parsed cfg envs r st = Inr st'"
  by (simp add: handle_parsed_def check_error_rate_total)

lemma process_records_total:
  "0 < WINDOW_SIZE cfg \<Longrightarrow> \<exists>st'. process_records cfg inputs st = Inr st'"
proof (induction inputs arbitrary: st)
  case Nil
  then show ?case by simp
next
  case (Cons x xs)
  obtain r envs where x: "x = (r, envs)" by (cases x)
  from handle_parsed_total [OF Cons.prems] obtain st1
    where "handle_parsed cfg envs r st = Inr st1" by blast
  with Cons.IH [OF Cons.prems, of st1] x show ?case by simp
qed

lemma process_records_unknown_pool:
  "\<forall>x\<in>set inputs. pool (fst x) = ''unknown'' \<Longrightarrow>
   process_records cfg inputs st = Inr st' \<Longrightarrow> last_pool st' = last_pool st"
proof (induction inputs arbitrary: st)
  case Nil
  then show ?case by simp
next
  case (Cons x xs)
  obtain r envs where x: "x = (r, envs)" by (cases x)
  from Cons.prems x obtain st1 where
    h: "handle_parsed cfg envs r st = Inr st1" and rest: "process_records cfg xs st1 = Inr st'"
    by (auto split: sum.splits)
  have "last_pool st1 = last_pool st"
    using handle_parsed_Inr(1) [OF h] Cons.prems(1) x by simp
  moreover have "last_pool st' = last_pool st1"
    using Cons.IH [OF _ rest] Cons.prems(1) by simp
  ultimately show ?case by simp
qed

text \<open>
  C3. A record whose pool is \<^verbatim>\<open>unknown\<close> leaves the whole state as it is, and so
  does any run of such records leave \<^verbatim>\<open>last_pool\<close>; the first record with
  another pool, met while \<^verbatim>\<open>last_pool\<close> is \<^verbatim>\<open>None\<close>, only stores the pool and
  prints the initial pool line, without any alert; and when \<^verbatim>\<open>last_pool\<close> is
  \<open>p\<close>, a record whose pool differs from \<open>p\<close> (as a string, so case matters) and
  from \<^verbatim>\<open>unknown\<close> hands a failover alert from \<open>p\<close> to the new pool to
  \<^verbatim>\<open>send_slack_alert\<close> and stores the new pool.
\<close>

theorem failover_tracker:
  "(pool r = ''unknown'' \<longrightarrow> check_failover cfg env r st = st) \<and>
   ((\<forall>x\<in>set inputs. pool (fst x) = ''unknown'') \<longrightarrow>
      process_records cfg inputs st = Inr st' \<longrightarrow> last_pool st' = last_pool st) \<and>
   (pool r \<noteq> ''unknown'' \<longrightarrow> last_pool st = None \<longrightarrow>
      check_failover cfg env r st =
        emit (Initial_pool_detected (pool r)) (st\<lparr>last_pool := Some (pool r)\<rparr>)) \<and>
   (last_pool st = Some p \<longrightarrow> pool r \<noteq> p \<longrightarrow> pool r \<noteq> ''unknown'' \<longrightarrow>
      check_failover cfg env r st =
        (send_slack_alert cfg env
           (Failover_Detected p (pool r) (release r) (upstream r) (timestamp r))
           ''failover'' st)\<lparr>last_pool := Some (pool r)\<rparr>)"
  using check_failover_unknown [of r cfg env st]
    process_records_unknown_pool [of inputs cfg st st']
    check_failover_initial [of r st cfg env]
    check_failover_switch [of r st p cfg env]
  by blast

text \<open>
  C3, instances: an \<^verbatim>\<open>unknown\<close> record met in pool \<^verbatim>\<open>green\<close>, a run of one
  \<^verbatim>\<open>unknown\<close> record from the initial state, the first record of pool
  \<^verbatim>\<open>blue\<close>, and a record of pool \<^verbatim>\<open>Blue\<close> met in pool \<^verbatim>\<open>blue\<close>.
\<close>

theorem failover_tracker_witness:
  "pool (example_record ''unknown'' 502) = ''unknown'' \<and>
   check_failover default_config (delivering 0) (example_record ''unknown'' 502)
     (initial_state\<lparr>last_pool := Some ''green''\<rparr>)
     = initial_state\<lparr>last_pool := Some ''green''\<rparr> \<and>
   process_records default_config
     [(example_record ''unknown'' 502, delivering 0, delivering 0)] initial_state
     = Inr (initial_state\<lparr>request_window := [example_record ''unknown'' 502]\<rparr>) \<and>
   last_pool (initial_state\<lparr>request_window := [example_record ''unknown'' 502]\<rparr>) = None \<and>
   pool (example_record ''blue'' 200) \<noteq> ''unknown'' \<and>
   check_failover default_config (delivering 0) (example_record ''blue'' 200) initial_state
     = emit (Initial_pool_detected ''blue'') (initial_state\<lparr>last_pool := Some ''blue''\<rparr>) \<and>
   pool (example_record ''Blue'' 200) \<noteq> ''blue'' \<and>
   check_failover default_config (delivering 0) (example_record ''Blue'' 200)
     (initial_state\<lparr>last_pool := Some ''blue''\<rparr>)
     = (send_slack_alert default_config (delivering 0)
          (Failover_Detected ''blue'' ''Blue'' ''v1.0.2'' ''10.0.0.5:3000'' 0) ''failover''
          (initial_state\<lparr>last_pool := Some ''blue''\<rparr>))\<lparr>last_pool := Some ''Blue''\<rparr>"
proof -
  have run: "process_records default_config
     [(example_record ''unknown'' 502, delivering 0, delivering 0)] initial_state
     = Inr (initial_state\<lparr>request_window := [example_record ''unknown'' 502]\<rparr>)"
    by (simp add: handle_parsed_def check_failover_def check_error_rate_def deque_append_def
          example_record_def default_config_def initial_state_def Let_def)
  show ?thesis
    using run
      failover_tracker [of "example_record ''unknown'' 502" default_config "delivering 0"
        "initial_state\<lparr>last_pool := Some ''green''\<rparr>"
        "[(example_record ''unknown'' 502, delivering 0, delivering 0)]"
        "initial_state\<lparr>request_window := [example_record ''unknown'' 502]\<rparr>" "''green''"]
      failover_tracker [of "example_record ''unknown'' 502" default_config "delivering 0"
        initial_state
        "[(example_record ''unknown'' 502, delivering 0, delivering 0)]"
        "initial_state\<lparr>request_window := [example_record ''unknown'' 502]\<rparr>" "''green''"]
      failover_tracker [of "example_record ''blue'' 200" default_config "delivering 0"
        initial_state "[]" initial_state "''green''"]
      failover_tracker [of "example_record ''Blue'' 200" default_config "delivering 0"
        "initial_state\<lparr>last_pool := Some ''blue''\<rparr>" "[]"
        "initial_state\<lparr>last_pool := Some ''blue''\<rparr>" "''blue''"]
    by (simp add: example_record_def initial_state_def)
qed

section \<open>Without a webhook\<close>

lemma silenced_check_failover:
  "silenced cfg \<Longrightarrow>
   last_alert_times (check_failover cfg env r st) = last_alert_times st"
  by (simp add: check_failover_def Let_def send_slack_alert_silenced split: option.splits)

lemma silenced_check_error_rate:
  "silenced cfg \<Longrightarrow> check_error_rate cfg env r st = Inr st' \<Longrightarrow>
   last_alert_times st' = last_alert_times st"
  by (auto simp: check_error_rate_def Let_def send_slack_alert_silenced split: if_splits)

lemma silenced_process_records:
  "silenced cfg \<Longrightarrow> process_records cfg inputs st = Inr st' \<Longrightarrow>
   last_alert_times st' = last_alert_times st"
proof (induction inputs arbitrary: st)
  case Nil
  then show ?case by simp
next
  case (Cons x xs)
  obtain r envs where x: "x = (r, envs)" by (cases x)
  from Cons.prems x obtain st1 where
    h: "handle_parsed cfg envs r st = Inr st1" and rest: "process_records cfg xs st1 = Inr st'"
    by (auto split: sum.splits)
  have "last_alert_times st1 = last_alert_times st"
    using h silenced_check_error_rate [OF Cons.prems(1), of "snd envs" r
            "check_failover cfg (fst envs) r st" st1]
    by (simp add: handle_parsed_def silenced_check_failover [OF Cons.prems(1)])
  with Cons.IH [OF Cons.prems(1) rest] show ?case by simp
qed

text \<open>
  C10. When \<^verbatim>\<open>SLACK_WEBHOOK_URL\<close> is unset or empty, every call of
  \<^verbatim>\<open>send_slack_alert\<close>, for every category, only prints the suppression line
  (nothing is posted), and no run of the processing loop changes
  \<^verbatim>\<open>last_alert_times\<close>: no time is ever recorded for any category.
\<close>

theorem no_webhook_suppresses_everything:
  assumes "not_url (SLACK_WEBHOOK_URL cfg)"
  shows "send_slack_alert cfg env msg alert_type st
           = emit (Alert_suppressed (MAINTENANCE_MODE cfg) msg) st \<and>
         (process_records cfg inputs st = Inr st' \<longrightarrow>
            last_alert_times st' = last_alert_times st)"
proof -
  from assms have s: "silenced cfg" by (simp add: silenced_def)
  show ?thesis
    using send_slack_alert_silenced [OF s] silenced_process_records [OF s] by blast
qed

text \<open>
  C10, an instance: without a webhook and with a window of one record, a record
  that changes the pool and is an error has both of its alerts suppressed, and
  no time is recorded.
\<close>

theorem no_webhook_suppresses_everything_witness:
  "not_url (SLACK_WEBHOOK_URL unset_config) \<and>
   send_slack_alert unset_config (delivering 0) rate_alert ''recovery'' initial_state
     = emit (Alert_suppressed False rate_alert) initial_state \<and>
   process_records unset_config
       [(example_record ''green'' 502, delivering 0, delivering 0)]
       (initial_state\<lparr>last_pool := Some ''blue''\<rparr>)
     = Inr \<lparr>last_pool = Some ''green'', request_window = [example_record ''green'' 502],
            last_alert_times = Map.empty,
            events = [Alert_suppressed False
                        (Failover_Detected ''blue'' ''green'' ''v1.0.2'' ''10.0.0.5:3000'' 0),
                      Alert_suppressed False (High_Error_Rate 100 2 1 1 ''green'' 1)]\<rparr> \<and>
   last_alert_times (initial_state\<lparr>last_pool := Some ''blue''\<rparr>) = Map.empty"
proof -
  have n: "not_url (SLACK_WEBHOOK_URL unset_config)"
    by (simp add: not_url_def unset_config_def)
  have run: "process_records unset_config
       [(example_record ''green'' 502, delivering 0, delivering 0)]
       (initial_state\<lparr>last_pool := Some ''blue''\<rparr>)
     = Inr \<lparr>last_pool = Some ''green'', request_window = [example_record ''green'' 502],
            last_alert_times = Map.empty,
            events = [Alert_suppressed False
                        (Failover_Detected ''blue'' ''green'' ''v1.0.2'' ''10.0.0.5:3000'' 0),
                      Alert_suppressed False (High_Error_Rate 100 2 1 1 ''green'' 1)]\<rparr>"
    by (simp add: handle_parsed_def check_failover_def check_error_rate_def deque_append_def
          send_slack_alert_def emit_def not_url_def error_rate_of_def error_count_of_def
          rate_percent_1_1 example_record_def unset_config_def default_config_def
          initial_state_def Let_def)
  show ?thesis
    using n run
      no_webhook_suppresses_everything [OF n, of "delivering 0" rate_alert "''recovery''"
        initial_state "[(example_record ''green'' 502, delivering 0, delivering 0)]"
        "initial_state\<lparr>last_pool := Some ''blue''\<rparr>"]
    by (simp add: unset_config_def default_config_def initial_state_def)
qed

section \<open>The sliding window\<close>

lemma deque_append_not_full:
  "length xs < n \<Longrightarrow> deque_append n xs x = xs @ [x]"
  by (simp add: deque_append_def)

lemma deque_append_full:
  "length xs = n \<Longrightarrow> 0 < n \<Longrightarrow> deque_append n xs x = tl xs @ [x]"
  by (cases xs) (simp_all add: deque_append_def)

lemma deque_append_length:
  "length xs \<le> n \<Longrightarrow> length (deque_append n xs x) = min (Suc (length xs)) n"
  by (auto simp: deque_append_def Let_def)

lemma drop_one: "drop (Suc 0) ys = tl ys"
  by (simp add: drop_Suc)

lemma deque_append_drop:
  "length xs \<le> n \<Longrightarrow> deque_append n xs x = drop (Suc (length xs) - n) (xs @ [x])"
proof (cases "length xs < n")
  case True
  then show ?thesis by (simp add: deque_append_def)
next
  case False
  assume "length xs \<le> n"
  with False have eq: "length xs = n" by simp
  then have "Suc (length xs) - n = Suc 0" by simp
  then have "drop (Suc (length xs) - n) (xs @ [x]) = tl (xs @ [x])"
    by (simp only: drop_one)
  moreover have "deque_append n xs x = tl (xs @ [x])"
    using eq by (simp add: deque_append_def)
  ultimately show ?thesis by simp
qed

lemma process_records_window:
  assumes "length (request_window st) \<le> WINDOW_SIZE cfg"
    and "process_records cfg inputs st = Inr st'"
  shows "request_window st' =
           drop (length (request_window st) + length inputs - WINDOW_SIZE cfg)
             (request_window st @ map fst inputs)"
  using assms
proof (induction inputs arbitrary: st)
  case Nil
  then show ?case by simp
next
  case (Cons x xs)
  obtain r envs where x: "x = (r, envs)" by (cases x)
  let ?n = "WINDOW_SIZE cfg"
  let ?w = "request_window st"
  from Cons.prems x obtain st1 where
    h: "handle_parsed cfg envs r st = Inr st1" and rest: "process_records cfg xs st1 = Inr st'"
    by (auto split: sum.splits)
  have w1: "request_window st1 = drop (Suc (length ?w) - ?n) (?w @ [r])"
    using handle_parsed_Inr(2) [OF h] deque_append_drop [OF Cons.prems(1)] by simp
  have l1: "length (request_window st1) = min (Suc (length ?w)) ?n"
    using handle_parsed_Inr(2) [OF h] deque_append_length [OF Cons.prems(1)] by simp
  then have le1: "length (request_window st1) \<le> ?n" by simp
  have "request_window st' =
          drop (length (request_window st1) + length xs - ?n) (request_window st1 @ map fst xs)"
    by (rule Cons.IH [OF le1 rest])
  also have "\<dots> = drop (length ?w + length (x # xs) - ?n) (?w @ map fst (x # xs))"
  proof (cases "length ?w < ?n")
    case True
    then show ?thesis using w1 l1 x by simp
  next
    case False
    with Cons.prems(1) have eq: "length ?w = ?n" by simp
    then have "Suc (length ?w) - ?n = Suc 0" by simp
    with w1 have t: "request_window st1 = tl (?w @ [r])" by (simp only: drop_one)
    have "?w @ map fst (x # xs) = (?w @ [r]) @ map fst xs" using x by simp
    then have "drop (Suc (length xs)) (?w @ map fst (x # xs))
                 = drop (length xs) (tl ((?w @ [r]) @ map fst xs))"
      by (simp only: drop_Suc)
    also have "tl ((?w @ [r]) @ map fst xs) = tl (?w @ [r]) @ map fst xs"
      by (rule tl_append2) simp
    finally have "drop (Suc (length xs)) (?w @ map fst (x # xs))
                    = drop (length xs) (request_window st1 @ map fst xs)"
      using t by simp
    moreover have "length (request_window st1) + length xs - ?n = length xs"
      using l1 eq by simp
    moreover have "length ?w + length (x # xs) - ?n = Suc (length xs)"
      using eq by simp
    ultimately show ?thesis by simp
  qed
  finally show ?case .
qed

text \<open>
  C4. With \<^verbatim>\<open>WINDOW_SIZE\<close> at least 1, processing any sequence of records from
  the initial state ends normally with a window no longer than \<^verbatim>\<open>WINDOW_SIZE\<close>,
  of length exactly \<^verbatim>\<open>WINDOW_SIZE\<close> once that many records have come, and
  holding the last \<^verbatim>\<open>WINDOW_SIZE\<close> records in their order of arrival; a push
  into a full window drops its oldest record and appends the new one.
\<close>

theorem sliding_window_fifo:
  assumes "1 \<le> WINDOW_SIZE cfg"
  shows "(\<exists>st'. process_records cfg inputs initial_state = Inr st' \<and>
            length (request_window st') \<le> WINDOW_SIZE cfg \<and>
            (WINDOW_SIZE cfg \<le> length inputs \<longrightarrow>
               length (request_window st') = WINDOW_SIZE cfg) \<and>
            request_window st' = drop (length inputs - WINDOW_SIZE cfg) (map fst inputs)) \<and>
         (length (request_window st) = WINDOW_SIZE cfg \<longrightarrow>
            (\<exists>st'. check_error_rate cfg env r st = Inr st' \<and>
               request_window st' = tl (request_window st) @ [r]))"
proof (intro conjI impI)
  from assms have pos: "0 < WINDOW_SIZE cfg" by simp
  from process_records_total [OF pos] obtain st'
    where run: "process_records cfg inputs initial_state = Inr st'" by blast
  have "length (request_window initial_state) \<le> WINDOW_SIZE cfg"
    by (simp add: initial_state_def)
  from process_records_window [OF this run]
  have w: "request_window st' = drop (length inputs - WINDOW_SIZE cfg) (map fst inputs)"
    by (simp add: initial_state_def)
  then have "length (request_window st') = length inputs - (length inputs - WINDOW_SIZE cfg)"
    by simp
  then have "length (request_window st') \<le> WINDOW_SIZE cfg"
    and "WINDOW_SIZE cfg \<le> length inputs \<longrightarrow> length (request_window st') = WINDOW_SIZE cfg"
    by auto
  with run w show "\<exists>st'. process_records cfg inputs initial_state = Inr st' \<and>
            length (request_window st') \<le> WINDOW_SIZE cfg \<and>
            (WINDOW_SIZE cfg \<le> length inputs \<longrightarrow>
               length (request_window st') = WINDOW_SIZE cfg) \<and>
            request_window st' = drop (length inputs - WINDOW_SIZE cfg) (map fst inputs)"
    by blast
next
  assume full: "length (request_window st) = WINDOW_SIZE cfg"
  from assms have pos: "0 < WINDOW_SIZE cfg" by simp
  from check_error_rate_total [OF pos] obtain st'
    where c: "check_error_rate cfg env r st = Inr st'" by blast
  with check_error_rate_Inr(2) [OF c] deque_append_full [OF full pos]
  show "\<exists>st'. check_error_rate cfg env r st = Inr st' \<and>
               request_window st' = tl (request_window st) @ [r]"
    by simp
qed

text \<open>
  C4, an instance: a window of three records after four pushes, and one push
  into the full window.
\<close>

theorem sliding_window_fifo_witness:
  "1 \<le> WINDOW_SIZE small_config \<and>
   map_sum id request_window
     (process_records small_config
        [(example_record ''blue'' 200, delivering 0, delivering 0),
         (example_record ''blue'' 201, delivering 1, delivering 1),
         (example_record ''blue'' 500, delivering 2, delivering 2),
         (example_record ''blue'' 502, delivering 3, delivering 3)] initial_state)
     = Inr [example_record ''blue'' 201, example_record ''blue'' 500,
            example_record ''blue'' 502] \<and>
   length (request_window
             (initial_state\<lparr>request_window :=
                [example_record ''blue'' 200, example_record ''blue'' 201,
                 example_record ''blue'' 500]\<rparr>)) = WINDOW_SIZE small_config \<and>
   map_sum id request_window
     (check_error_rate small_config (delivering 3) (example_record ''blue'' 502)
        (initial_state\<lparr>request_window :=
           [example_record ''blue'' 200, example_record ''blue'' 201,
            example_record ''blue'' 500]\<rparr>))
     = Inr [example_record ''blue'' 201, example_record ''blue'' 500,
            example_record ''blue'' 502]"
proof -
  have n: "1 \<le> WINDOW_SIZE small_config"
    by (simp add: small_config_def)
  show ?thesis
    using n
      sliding_window_fifo [OF n,
        of "[(example_record ''blue'' 200, delivering 0, delivering 0),
             (example_record ''blue'' 201, delivering 1, delivering 1),
             (example_record ''blue'' 500, delivering 2, delivering 2),
             (example_record ''blue'' 502, delivering 3, delivering 3)]"
           "initial_state\<lparr>request_window :=
              [example_record ''blue'' 200, example_record ''blue'' 201,
               example_record ''blue'' 500]\<rparr>"
           "delivering 3" "example_record ''blue'' 502"]
    by (auto simp: small_config_def)
qed

text \<open>
  C5. In a state whose window respects \<^verbatim>\<open>WINDOW_SIZE\<close> (as every deque with
  that \<^verbatim>\<open>maxlen\<close> does): a push after which the window still holds fewer than
  \<^verbatim>\<open>WINDOW_SIZE\<close> records only stores the record, computing no rate and
  raising no alert; and whenever a push prints, posts or records anything, the
  window then holds exactly \<^verbatim>\<open>WINDOW_SIZE\<close> records.
\<close>

theorem insufficient_data_until_full:
  assumes "length (request_window st) \<le> WINDOW_SIZE cfg"
  shows "(length (request_window st) + 1 < WINDOW_SIZE cfg \<longrightarrow>
            check_error_rate cfg env r st
              = Inr (st\<lparr>request_window := request_window st @ [r]\<rparr>)) \<and>
         (check_error_rate cfg env r st = Inr st' \<longrightarrow>
            events st' \<noteq> events st \<or> last_alert_times st' \<noteq> last_alert_times st \<longrightarrow>
            length (request_window st') = WINDOW_SIZE cfg)"
proof (intro conjI impI)
  assume "length (request_window st) + 1 < WINDOW_SIZE cfg"
  then show "check_error_rate cfg env r st
              = Inr (st\<lparr>request_window := request_window st @ [r]\<rparr>)"
    by (simp add: check_error_rate_def deque_append_def Let_def)
next
  assume c: "check_error_rate cfg env r st = Inr st'"
    and ch: "events st' \<noteq> events st \<or> last_alert_times st' \<noteq> last_alert_times st"
  let ?w = "deque_append (WINDOW_SIZE cfg) (request_window st) r"
  have "\<not> length ?w < WINDOW_SIZE cfg"
  proof
    assume "length ?w < WINDOW_SIZE cfg"
    with c have "st' = st\<lparr>request_window := ?w\<rparr>"
      by (simp add: check_error_rate_def Let_def)
    with ch show False by simp
  qed
  moreover have "length ?w \<le> WINDOW_SIZE cfg"
    using deque_append_length [OF assms, of r] by simp
  ultimately show "length (request_window st') = WINDOW_SIZE cfg"
    using check_error_rate_Inr(2) [OF c] by simp
qed

text \<open>
  C5, instances: the first push into a window of three, and the push that fills
  it with two errors out of three.
\<close>

theorem insufficient_data_until_full_witness:
  "length (request_window initial_state) \<le> WINDOW_SIZE small_config \<and>
   length (request_window initial_state) + 1 < WINDOW_SIZE small_config \<and>
   check_error_rate small_config (delivering 0) (example_record ''blue'' 500) initial_state
     = Inr (initial_state\<lparr>request_window := [example_record ''blue'' 500]\<rparr>) \<and>
   check_error_rate small_config (delivering 2) (example_record ''blue'' 502)
       (initial_state\<lparr>request_window :=
          [example_record ''blue'' 200, example_record ''blue'' 500]\<rparr>)
     = Inr (send_slack_alert small_config (delivering 2)
              (High_Error_Rate (rate_percent 2 3) 50 2 3 ''blue'' 3) ''error_rate''
              (initial_state\<lparr>request_window :=
                 [example_record ''blue'' 200, example_record ''blue'' 500,
                  example_record ''blue'' 502]\<rparr>)) \<and>
   length (request_window
     (send_slack_alert small_config (delivering 2)
              (High_Error_Rate (rate_percent 2 3) 50 2 3 ''blue'' 3) ''error_rate''
              (initial_state\<lparr>request_window :=
                 [example_record ''blue'' 200, example_record ''blue'' 500,
                  example_record ''blue'' 502]\<rparr>))) = WINDOW_SIZE small_config"
proof -
  let ?st2 = "initial_state\<lparr>request_window :=
          [example_record ''blue'' 200, example_record ''blue'' 500]\<rparr>"
  let ?st3 = "send_slack_alert small_config (delivering 2)
              (High_Error_Rate (rate_percent 2 3) 50 2 3 ''blue'' 3) ''error_rate''
              (initial_state\<lparr>request_window :=
                 [example_record ''blue'' 200, example_record ''blue'' 500,
                  example_record ''blue'' 502]\<rparr>)"
  have l0: "length (request_window initial_state) \<le> WINDOW_SIZE small_config"
    by (simp add: initial_state_def)
  have l2: "length (request_window ?st2) \<le> WINDOW_SIZE small_config"
    by (simp add: small_config_def)
  have run: "check_error_rate small_config (delivering 2) (example_record ''blue'' 502) ?st2
               = Inr ?st3"
    by (simp add: check_error_rate_def deque_append_def error_rate_of_def error_count_of_def
          example_record_def small_config_def default_config_def Let_def
          numeral_2_eq_2 numeral_3_eq_3 rate_percent_2_3_Suc)
  have ev: "events ?st3 \<noteq> events ?st2"
    using send_slack_alert_events_grow
      [of small_config "delivering 2" "High_Error_Rate (rate_percent 2 3) 50 2 3 ''blue'' 3"
          "''error_rate''" "initial_state\<lparr>request_window :=
                 [example_record ''blue'' 200, example_record ''blue'' 500,
                  example_record ''blue'' 502]\<rparr>"]
    by simp
  show ?thesis
    using l0 run
      insufficient_data_until_full [OF l0, of "delivering 0" "example_record ''blue'' 500"]
      insufficient_data_until_full [OF l2, of "delivering 2" "example_record ''blue'' 502" ?st3]
      ev
    by (simp add: small_config_def initial_state_def)
qed

section \<open>The error rate\<close>

lemma parse_log_line_is_5xx:
  "parse_log_line m t l = Some p \<Longrightarrow>
   is_5xx p = (500 \<le> status p \<or> 500 \<le> upstream_status p)"
  by (auto simp: parse_log_line_def Let_def split: sum.splits option.splits)

lemma parse_example_502:
  "parse_log_line 4300 0 (example_line ''blue'' ''502'') = Some (example_record ''blue'' 502)"
  by code_simp

lemma parse_example_200:
  "parse_log_line 4300 0 (example_line ''blue'' ''200'') = Some (example_record ''blue'' 200)"
  by code_simp

lemma boundary_window_push:
  "length (boundary_window @ [example_record ''blue'' 502]) = 200"
  "error_count_of (boundary_window @ [example_record ''blue'' 502]) = 14"
  by (simp_all add: boundary_window_def error_count_of_def example_record_def)

text \<open>
  C6, as stated, fails: with a window of 200 and a threshold of 7, the push that
  brings the window to 14 errors in 200 records has a rate of exactly
  \<open>100 * 14 / 200 = 7\<close>, which is not greater than the threshold; but line 163
  computes \<^verbatim>\<open>(14 / 200) * 100\<close> in doubles, which is \<open>7 + 2 ^ (- 50)\<close>, and the
  alert is raised.
\<close>

theorem error_rate_alert_at_threshold:
  "100 * real (error_count_of (boundary_window @ [example_record ''blue'' 502]))
     / real (length (boundary_window @ [example_record ''blue'' 502]))
     = ERROR_RATE_THRESHOLD seven_config \<and>
   check_error_rate seven_config (delivering 0) (example_record ''blue'' 502)
       (initial_state\<lparr>request_window := boundary_window\<rparr>)
     = Inr (send_slack_alert seven_config (delivering 0)
              (High_Error_Rate (7 + 1 / 2 ^ 50) 7 14 200 ''blue'' 200) ''error_rate''
              (initial_state\<lparr>request_window :=
                 boundary_window @ [example_record ''blue'' 502]\<rparr>))"
proof -
  let ?r = "example_record ''blue'' 502"
  have thr: "ERROR_RATE_THRESHOLD seven_config = 7" "WINDOW_SIZE seven_config = 200"
    by (simp_all add: seven_config_def default_config_def)
  have lb: "length boundary_window = 199" by (simp add: boundary_window_def)
  then have "length boundary_window < 200" by simp
  then have w: "deque_append 200 boundary_window ?r = boundary_window @ [?r]"
    by (rule deque_append_not_full)
  have rate: "error_rate_of (boundary_window @ [?r]) = 7 + 1 / 2 ^ 50"
    by (simp only: error_rate_of_def boundary_window_push rate_percent_14_200)
  have pool: "pool ?r = ''blue''" by (simp add: example_record_def)
  have "check_error_rate seven_config (delivering 0) ?r
          (initial_state\<lparr>request_window := boundary_window\<rparr>)
        = Inr (send_slack_alert seven_config (delivering 0)
                 (High_Error_Rate (7 + 1 / 2 ^ 50) 7 14 200 ''blue'' 200) ''error_rate''
                 (initial_state\<lparr>request_window := boundary_window @ [?r]\<rparr>))"
    unfolding check_error_rate_def Let_def thr
    by (simp add: w rate pool lb boundary_window_push(2))
  moreover have "100 * real (error_count_of (boundary_window @ [?r]))
                   / real (length (boundary_window @ [?r])) = ERROR_RATE_THRESHOLD seven_config"
    by (simp add: boundary_window_push(2) lb thr)
  ultimately show ?thesis by simp
qed

text \<open>
  C6, amended. For a push after which the window is full (it holds
  \<^verbatim>\<open>WINDOW_SIZE\<close> records, at least one) and whose records all come from
  \<^verbatim>\<open>parse_log_line\<close>: the error count is the number of records of the window
  with a status or an upstream status of 500 or more; the rate is
  \<^verbatim>\<open>(count / length) * 100\<close> computed in doubles from the window as it is after
  the push, which is within \<open>2 ^ (- 45)\<close> of 100 times the count over the length
  but need not be equal to it; and the error rate alert, carrying that rate,
  count and length, is handed to \<^verbatim>\<open>send_slack_alert\<close> if and only if the
  computed rate is strictly greater than \<^verbatim>\<open>ERROR_RATE_THRESHOLD\<close>.
\<close>

theorem error_rate_over_full_window:
  assumes "window = deque_append (WINDOW_SIZE cfg) (request_window st) r"
    and "length window = WINDOW_SIZE cfg" and "1 \<le> WINDOW_SIZE cfg"
    and "\<forall>p\<in>set window. \<exists>m t l. parse_log_line m t l = Some p"
  shows "error_count_of window
           = length (filter (\<lambda>p. 500 \<le> status p \<or> 500 \<le> upstream_status p) window) \<and>
         error_rate_of window = rate_percent (error_count_of window) (length window) \<and>
         \<bar>error_rate_of window
            - 100 * real (error_count_of window) / real (length window)\<bar> \<le> 1 / 2 ^ 45 \<and>
         check_error_rate cfg env r st
           = Inr (if ERROR_RATE_THRESHOLD cfg < error_rate_of window
                  then send_slack_alert cfg env
                         (High_Error_Rate (error_rate_of window) (ERROR_RATE_THRESHOLD cfg)
                            (error_count_of window) (length window) (pool r) (WINDOW_SIZE cfg))
                         ''error_rate'' (st\<lparr>request_window := window\<rparr>)
                  else st\<lparr>request_window := window\<rparr>) \<and>
         (check_error_rate cfg env r st = Inr st' \<longrightarrow>
            (events st' \<noteq> events st) = (ERROR_RATE_THRESHOLD cfg < error_rate_of window))"
proof (intro conjI impI)
  have "\<forall>p\<in>set window. is_5xx p = (500 \<le> status p \<or> 500 \<le> upstream_status p)"
    using assms(4) parse_log_line_is_5xx by blast
  then have "filter is_5xx window
               = filter (\<lambda>p. 500 \<le> status p \<or> 500 \<le> upstream_status p) window"
    by (intro filter_cong) auto
  then show "error_count_of window
           = length (filter (\<lambda>p. 500 \<le> status p \<or> 500 \<le> upstream_status p) window)"
    by (simp add: error_count_of_def)
next
  show "error_rate_of window = rate_percent (error_count_of window) (length window)"
    by (simp add: error_rate_of_def)
next
  have "error_count_of window \<le> length window" by (simp add: error_count_of_def)
  moreover have "0 < length window" using assms(2,3) by simp
  ultimately show "\<bar>error_rate_of window
            - 100 * real (error_count_of window) / real (length window)\<bar> \<le> 1 / 2 ^ 45"
    unfolding error_rate_of_def by (rule rate_percent_error)
next
  show run: "check_error_rate cfg env r st
           = Inr (if ERROR_RATE_THRESHOLD cfg < error_rate_of window
                  then send_slack_alert cfg env
                         (High_Error_Rate (error_rate_of window) (ERROR_RATE_THRESHOLD cfg)
                            (error_count_of window) (length window) (pool r) (WINDOW_SIZE cfg))
                         ''error_rate'' (st\<lparr>request_window := window\<rparr>)
                  else st\<lparr>request_window := window\<rparr>)"
    using assms(2,3) unfolding check_error_rate_def assms(1) [symmetric] Let_def by simp
  assume "check_error_rate cfg env r st = Inr st'"
  with run show "(events st' \<noteq> events st) = (ERROR_RATE_THRESHOLD cfg < error_rate_of window)"
    using send_slack_alert_events_grow
      [of cfg env "High_Error_Rate (error_rate_of window) (ERROR_RATE_THRESHOLD cfg)
                     (error_count_of window) (length window) (pool r) (WINDOW_SIZE cfg)"
          "''error_rate''" "st\<lparr>request_window := window\<rparr>"]
    by (auto split: if_splits)
qed

text \<open>
  C6, an instance (Scenario A): window of three, threshold 50; pushing a second
  error into a full window with one error drops the oldest record and gives two
  errors out of three, a computed rate of 66.66666666666666 (the double nearest
  to that product), and the alert.
\<close>

theorem error_rate_over_full_window_witness:
  "[example_record ''blue'' 200, example_record ''blue'' 502, example_record ''blue'' 502]
     = deque_append (WINDOW_SIZE small_config)
         (request_window (initial_state\<lparr>request_window :=
            [example_record ''blue'' 200, example_record ''blue'' 200,
             example_record ''blue'' 502]\<rparr>))
         (example_record ''blue'' 502) \<and>
   1 \<le> WINDOW_SIZE small_config \<and>
   parse_log_line 4300 0 (example_line ''blue'' ''200'') = Some (example_record ''blue'' 200) \<and>
   parse_log_line 4300 0 (example_line ''blue'' ''502'') = Some (example_record ''blue'' 502) \<and>
   error_count_of
     [example_record ''blue'' 200, example_record ''blue'' 502, example_record ''blue'' 502]
     = 2 \<and>
   error_rate_of
     [example_record ''blue'' 200, example_record ''blue'' 502, example_record ''blue'' 502]
     = 2345624805922133 / 35184372088832 \<and>
   check_error_rate small_config (delivering 3) (example_record ''blue'' 502)
       (initial_state\<lparr>request_window :=
          [example_record ''blue'' 200, example_record ''blue'' 200,
           example_record ''blue'' 502]\<rparr>)
     = Inr (send_slack_alert small_config (delivering 3)
              (High_Error_Rate (2345624805922133 / 35184372088832) 50 2 3 ''blue'' 3)
              ''error_rate''
              (initial_state\<lparr>request_window :=
                 [example_record ''blue'' 200, example_record ''blue'' 502,
                  example_record ''blue'' 502]\<rparr>))"
proof -
  let ?w = "[example_record ''blue'' 200, example_record ''blue'' 502,
             example_record ''blue'' 502]"
  let ?st = "initial_state\<lparr>request_window :=
            [example_record ''blue'' 200, example_record ''blue'' 200,
             example_record ''blue'' 502]\<rparr>"
  have w: "?w = deque_append (WINDOW_SIZE small_config) (request_window ?st)
                  (example_record ''blue'' 502)"
    by (simp add: deque_append_def small_config_def)
  have l: "length ?w = WINDOW_SIZE small_config" by (simp add: small_config_def)
  have n: "1 \<le> WINDOW_SIZE small_config" by (simp add: small_config_def)
  have p: "\<forall>p\<in>set ?w. \<exists>m t l. parse_log_line m t l = Some p"
    using parse_example_200 parse_example_502 by auto
  have cnt: "length (filter (\<lambda>p. 500 \<le> status p \<or> 500 \<le> upstream_status p) ?w) = 2"
    by (simp add: example_record_def)
  have pool: "pool (example_record ''blue'' 502) = ''blue''"
    by (simp add: example_record_def)
  have thr: "ERROR_RATE_THRESHOLD small_config = 50" "WINDOW_SIZE small_config = 3"
    by (simp_all add: small_config_def)
  have len: "length ?w = 3" by simp
  note inst = error_rate_over_full_window [OF w l n p, of "delivering 3"]
  from inst have c1: "error_count_of ?w = 2" using cnt by simp
  from inst have "error_rate_of ?w = rate_percent (error_count_of ?w) (length ?w)"
    by simp
  then have c2: "error_rate_of ?w = 2345624805922133 / 35184372088832"
    unfolding c1 len rate_percent_2_3 .
  from inst have "check_error_rate small_config (delivering 3) (example_record ''blue'' 502) ?st
      = Inr (if ERROR_RATE_THRESHOLD small_config < error_rate_of ?w
             then send_slack_alert small_config (delivering 3)
                    (High_Error_Rate (error_rate_of ?w) (ERROR_RATE_THRESHOLD small_config)
                       (error_count_of ?w) (length ?w) (pool (example_record ''blue'' 502))
                       (WINDOW_SIZE small_config))
                    ''error_rate'' (?st\<lparr>request_window := ?w\<rparr>)
             else ?st\<lparr>request_window := ?w\<rparr>)"
    by blast
  then have c3: "check_error_rate small_config (delivering 3) (example_record ''blue'' 502) ?st
      = Inr (send_slack_alert small_config (delivering 3)
               (High_Error_Rate (2345624805922133 / 35184372088832) 50 2 3 ''blue'' 3)
               ''error_rate''
               (initial_state\<lparr>request_window := ?w\<rparr>))"
    unfolding c1 c2 thr pool len by simp
  show ?thesis
    using w n parse_example_200 parse_example_502 c1 c2 c3 by blast
qed

section \<open>Deliveries and the gate do not reach the tracker or the window\<close>

lemma handle_parsed_core:
  "map_sum id core (handle_parsed cfg envs r st) =
     (if WINDOW_SIZE cfg = 0 \<and> request_window st = [] then Inl ZeroDivisionError
      else Inr (if pool r = ''unknown'' then last_pool st else Some (pool r),
                deque_append (WINDOW_SIZE cfg) (request_window st) r))"
  by (cases "request_window st")
     (auto simp: handle_parsed_def check_error_rate_def core_def check_failover_last_pool
        deque_append_def Let_def)

lemma process_records_core:
  assumes "WINDOW_SIZE cfg1 = WINDOW_SIZE cfg2" and "map fst inputs1 = map fst inputs2"
    and "core st1 = core st2"
  shows "map_sum id core (process_records cfg1 inputs1 st1)
           = map_sum id core (process_records cfg2 inputs2 st2)"
  using assms(2,3)
proof (induction inputs1 arbitrary: inputs2 st1 st2)
  case Nil
  then show ?case by simp
next
  case (Cons x xs)
  then obtain y ys where i2: "inputs2 = y # ys" by (cases inputs2) auto
  obtain r e1 where x: "x = (r, e1)" by (cases x)
  obtain r' e2 where y: "y = (r', e2)" by (cases y)
  from Cons.prems(1) i2 x y have r: "r' = r" and tl: "map fst xs = map fst ys" by auto
  have step: "map_sum id core (handle_parsed cfg1 e1 r st1)
                = map_sum id core (handle_parsed cfg2 e2 r st2)"
    using Cons.prems(2) assms(1) by (simp add: handle_parsed_core core_def)
  show ?case
  proof (cases "handle_parsed cfg1 e1 r st1")
    case (Inl e)
    with step have "handle_parsed cfg2 e2 r st2 = Inl e"
      by (cases "handle_parsed cfg2 e2 r st2") auto
    with Inl show ?thesis using i2 x y r by simp
  next
    case (Inr s1)
    with step obtain s2 where h2: "handle_parsed cfg2 e2 r st2 = Inr s2"
      and c: "core s1 = core s2"
      by (cases "handle_parsed cfg2 e2 r st2") auto
    from Cons.IH [OF tl c] Inr h2 show ?thesis using i2 x y r by simp
  qed
qed

text \<open>
  C9. Two runs of the processing loop over the same sequence of parsed records,
  with the same \<^verbatim>\<open>WINDOW_SIZE\<close> and starting from the same pool and window, end
  alike (both with the same exception, or both normally) and with the same pool
  and the same window, whatever the two runs' webhook, maintenance flag,
  cooldown, threshold, recorded alert times, clocks and delivery outcomes are.
\<close>

theorem delivery_does_not_interfere:
  assumes "WINDOW_SIZE cfg1 = WINDOW_SIZE cfg2"
    and "map fst inputs1 = map fst inputs2"
    and "last_pool st1 = last_pool st2" and "request_window st1 = request_window st2"
  shows "map_sum id core (process_records cfg1 inputs1 st1)
           = map_sum id core (process_records cfg2 inputs2 st2)"
  using assms by (intro process_records_core) (simp_all add: core_def)

text \<open>
  C9, an instance: three records processed once with a webhook and a notifier
  that delivers, and once in maintenance mode, without a webhook, with another
  threshold and cooldown, a recorded alert time and a notifier that fails.
\<close>

theorem delivery_does_not_interfere_witness:
  "WINDOW_SIZE small_config = WINDOW_SIZE muted_config \<and>
   map_sum id core
     (process_records small_config
        [(example_record ''blue'' 200, delivering 0, delivering 0),
         (example_record ''green'' 502, delivering 1, delivering 1),
         (example_record ''green'' 502, delivering 2, delivering 2)] initial_state)
     = Inr (Some ''green'',
            [example_record ''blue'' 200, example_record ''green'' 502,
             example_record ''green'' 502]) \<and>
   map_sum id core
     (process_records muted_config
        [(example_record ''blue'' 200, failing 10, failing 11),
         (example_record ''green'' 502, failing 12, failing 13),
         (example_record ''green'' 502, failing 14, failing 15)]
        (initial_state\<lparr>last_alert_times := [''failover'' \<mapsto> 9]\<rparr>))
     = Inr (Some ''green'',
            [example_record ''blue'' 200, example_record ''green'' 502,
             example_record ''green'' 502])"
proof -
  have n: "WINDOW_SIZE small_config = WINDOW_SIZE muted_config"
    by (simp add: small_config_def muted_config_def)
  have run: "map_sum id core
     (process_records muted_config
        [(example_record ''blue'' 200, failing 10, failing 11),
         (example_record ''green'' 502, failing 12, failing 13),
         (example_record ''green'' 502, failing 14, failing 15)]
        (initial_state\<lparr>last_alert_times := [''failover'' \<mapsto> 9]\<rparr>))
     = Inr (Some ''green'',
            [example_record ''blue'' 200, example_record ''green'' 502,
             example_record ''green'' 502])"
    by (simp add: handle_parsed_def check_failover_def check_error_rate_def deque_append_def
          send_slack_alert_def not_url_def core_def error_rate_of_def error_count_of_def
          rate_percent_2_3_Suc example_record_def muted_config_def initial_state_def Let_def)
  show ?thesis
    using n run
      delivery_does_not_interfere [OF n,
        of "[(example_record ''blue'' 200, delivering 0, delivering 0),
             (example_record ''green'' 502, delivering 1, delivering 1),
             (example_record ''green'' 502, delivering 2, delivering 2)]"
           "[(example_record ''blue'' 200, failing 10, failing 11),
             (example_record ''green'' 502, failing 12, failing 13),
             (example_record ''green'' 502, failing 14, failing 15)]"
           initial_state "initial_state\<lparr>last_alert_times := [''failover'' \<mapsto> 9]\<rparr>"]
    by simp
qed

section \<open>The parser\<close>

lemma try_lengths_Some:
  "try_lengths k n = Some g \<Longrightarrow> \<exists>i. 0 < i \<and> i \<le> n \<and> k i = Some g"
proof (induction n)
  case 0
  then show ?case by simp
next
  case (Suc n)
  show ?case
  proof (cases "k (Suc n)")
    case None
    with Suc obtain i where "0 < i" "i \<le> n" "k i = Some g" by auto
    then show ?thesis by (intro exI [of _ i]) simp
  next
    case (Some r)
    with Suc.prems show ?thesis by (intro exI [of _ "Suc n"]) simp
  qed
qed

lemma re_match_at_group:
  "re_match_at its grp s = Some g \<Longrightarrow> g \<noteq> [] \<and> list_all grp g"
proof (induction its arbitrary: s)
  case Nil
  then show ?case
    by (auto simp: list_all_iff split: if_splits dest: set_takeWhileD)
next
  case (Cons it its)
  show ?case
  proof (cases it)
    case (Lit c)
    with Cons.prems obtain ds where "s = c # ds" "re_match_at its grp ds = Some g"
      by (cases s) (auto split: if_splits)
    then show ?thesis using Cons.IH by blast
  next
    case (Plus cls)
    with Cons.prems obtain i where "re_match_at its grp (drop i s) = Some g"
      by (auto dest: try_lengths_Some)
    then show ?thesis using Cons.IH by blast
  qed
qed

lemma re_search_group:
  "re_search p line = Some g \<Longrightarrow> g \<noteq> [] \<and> list_all (group1 p) g"
  by (induction line) (auto split: option.splits dest: re_match_at_group)

lemma re_match_at_lits:
  "re_match_at (map Lit key) grp s = Some g \<Longrightarrow> take (length key) s = key"
proof (induction key arbitrary: s)
  case Nil
  then show ?case by simp
next
  case (Cons k key)
  then show ?case by (cases s) (auto split: if_splits)
qed

lemma re_search_key_absent:
  "\<not> occurs key line \<Longrightarrow> re_search (key_pattern key grp) line = None"
proof (induction line)
  case Nil
  then have "key \<noteq> []" by simp
  then show ?case by (cases key) (simp_all add: key_pattern_def)
next
  case (Cons c cs)
  then have no: "take (length key) (c # cs) \<noteq> key" and rest: "\<not> occurs key cs" by simp_all
  have "re_match_at (map Lit key) grp (c # cs) = None"
  proof (cases "re_match_at (map Lit key) grp (c # cs)")
    case (Some g)
    from re_match_at_lits [OF this] no show ?thesis by simp
  qed simp
  with Cons.IH [OF rest] show ?case by (simp add: key_pattern_def)
qed

lemma re_match_at_Lit_other:
  "d \<noteq> c \<Longrightarrow> re_match_at (Lit c # its) grp (d # ds) = None"
  by simp

lemma status_re_items:
  "items status_re =
     Lit (CHR 0x22) # [Plus is_upper, Plus is_space, Plus not_quote, Lit (CHR 0x22),
                       Plus is_space]"
  by (simp add: status_re_def)

lemma re_search_status_absent:
  "CHR 0x22 \<notin> set line \<Longrightarrow> re_search status_re line = None"
proof (induction line)
  case Nil
  show ?case by (simp add: status_re_items)
next
  case (Cons c cs)
  then have "c \<noteq> CHR 0x22" and rest: "re_search status_re cs = None" by auto
  then have "re_match_at (items status_re) (group1 status_re) (c # cs) = None"
    unfolding status_re_items by (intro re_match_at_Lit_other)
  with rest show ?case by (simp del: re_match_at.simps)
qed

lemma py_int_fails: "(py_int m g = Inl e) = (0 < m \<and> m < length g \<and> e = ValueError)"
  by (auto simp: py_int_def)

lemma dropWhile_digit_time:
  assumes "list_all is_time_char g" and "dropWhile is_digit g = c # fp"
  shows "c = CHR ''.''" and "list_all is_time_char fp"
proof -
  have "c \<in> set g" "set fp \<subseteq> set g"
    using assms(2) set_dropWhileD [of _ is_digit g] by (auto simp: subset_iff)
  moreover have "\<not> is_digit c" using assms(2) hd_dropWhile [of is_digit g] by auto
  ultimately show "c = CHR ''.''" and "list_all is_time_char fp"
    using assms(1) by (auto simp: list_all_iff is_time_char_def)
qed

lemma dot_not_digit: "\<not> is_digit CHR ''.''"
  by (simp add: is_digit_def)

lemma all_digits_iff_no_dot:
  "list_all is_time_char fp \<Longrightarrow> list_all is_digit fp = (CHR ''.'' \<notin> set fp)"
  using dot_not_digit by (auto simp: list_all_iff is_time_char_def)

lemma py_float_fails:
  assumes "list_all is_time_char g"
  shows "(py_float g = Inl ValueError)
           = ((\<forall>c\<in>set g. \<not> is_digit c) \<or> 2 \<le> count_list g (CHR ''.''))"
proof (cases "dropWhile is_digit g")
  case Nil
  then have all: "\<forall>c\<in>set g. is_digit c"
    by (metis dropWhile_eq_Nil_conv)
  then have tw: "takeWhile is_digit g = g" by (simp add: takeWhile_eq_all_conv)
  have "CHR ''.'' \<notin> set g" using all dot_not_digit by auto
  then have "count_list g (CHR ''.'') = 0" by (simp add: count_list_0_iff)
  moreover have "(\<forall>c\<in>set g. \<not> is_digit c) = (g = [])"
    using all by (cases g) auto
  moreover have "py_float g = (if g = [] then Inl ValueError
                               else Inr (float_of_fraction (digits_value g) 1))"
    unfolding py_float_def Let_def Nil tw by simp
  ultimately show ?thesis by simp
next
  case (Cons c fp)
  from dropWhile_digit_time [OF assms Cons] have c: "c = CHR ''.''"
    and fp: "list_all is_time_char fp" by simp_all
  let ?ip = "takeWhile is_digit g"
  have g: "g = ?ip @ CHR ''.'' # fp"
    using takeWhile_dropWhile_id [of is_digit g] Cons c by simp
  have ipd: "\<forall>d\<in>set ?ip. is_digit d" by (auto dest: set_takeWhileD)
  then have "CHR ''.'' \<notin> set ?ip" using dot_not_digit by auto
  then have "count_list ?ip (CHR ''.'') = 0" by (simp add: count_list_0_iff)
  then have cnt: "count_list g (CHR ''.'') = Suc (count_list fp (CHR ''.''))"
    by (subst g) simp
  have dig: "(\<forall>c\<in>set g. \<not> is_digit c) = (?ip = [] \<and> (\<forall>c\<in>set fp. \<not> is_digit c))"
    using ipd dot_not_digit by (subst g) (cases ?ip, auto)
  show ?thesis
  proof (cases "CHR ''.'' \<in> set fp")
    case True
    then have "count_list fp (CHR ''.'') \<noteq> 0" by (simp only: count_list_0_iff) simp
    then have "0 < count_list fp (CHR ''.'')" by simp
    with cnt have "2 \<le> count_list g (CHR ''.'')" by simp
    moreover have "\<not> list_all is_digit fp"
      using True all_digits_iff_no_dot [OF fp] by simp
    ultimately show ?thesis using Cons by (simp add: py_float_def Let_def)
  next
    case False
    then have "count_list fp (CHR ''.'') = 0" by (simp add: count_list_0_iff)
    with cnt have one: "\<not> 2 \<le> count_list g (CHR ''.'')" by simp
    have ad: "list_all is_digit fp" using False all_digits_iff_no_dot [OF fp] by simp
    then have "(\<forall>c\<in>set fp. \<not> is_digit c) = (fp = [])"
      by (cases fp) (auto simp: list_all_iff)
    with dig one ad show ?thesis using Cons c by (auto simp: py_float_def Let_def)
  qed
qed


lemma py_float_Inl: "py_float g = Inl e \<Longrightarrow> e = ValueError"
  by (cases e) (auto simp: py_float_def Let_def split: list.splits if_splits)

lemma py_int_Inl: "py_int m g = Inl e \<Longrightarrow> e = ValueError"
  by (simp add: py_int_fails)

lemma parse_log_line_isl:
  "(parse_log_line m now line = None) =
     (isl (case re_search upstream_status_re line of
             Some g \<Rightarrow> py_int m g | None \<Rightarrow> Inr 0) \<or>
      isl (case re_search status_re line of Some g \<Rightarrow> py_int m g | None \<Rightarrow> Inr 0) \<or>
      isl (case re_search request_time_re line of
             Some g \<Rightarrow> py_float g | None \<Rightarrow> Inr (Finite 0)))"
  by (simp add: parse_log_line_def Let_def split: sum.splits)

lemma isl_py_int:
  "isl (case r of Some g \<Rightarrow> py_int m g | None \<Rightarrow> Inr 0)
     = (\<exists>g. r = Some g \<and> py_int m g = Inl ValueError)"
  by (cases r) (auto simp: py_int_def)

lemma isl_py_float:
  "isl (case r of Some g \<Rightarrow> py_float g | None \<Rightarrow> Inr (Finite 0))
     = (\<exists>g. r = Some g \<and> py_float g = Inl ValueError)"
proof (cases r)
  case None
  then show ?thesis by simp
next
  case (Some g)
  then show ?thesis by (cases "py_float g") (auto dest: py_float_Inl)
qed

lemma parse_log_line_None:
  "(parse_log_line m now line = None) =
     ((\<exists>g. re_search upstream_status_re line = Some g \<and> py_int m g = Inl ValueError) \<or>
      (\<exists>g. re_search status_re line = Some g \<and> py_int m g = Inl ValueError) \<or>
      (\<exists>g. re_search request_time_re line = Some g \<and> py_float g = Inl ValueError))"
  unfolding parse_log_line_isl isl_py_int isl_py_float ..

lemma request_time_capture:
  "re_search request_time_re line = Some g \<Longrightarrow> list_all is_time_char g"
  using re_search_group [of request_time_re line g]
  by (simp add: request_time_re_def key_pattern_def)

lemma parse_log_line_absent:
  assumes "parse_log_line m now line = Some p"
  shows "re_search pool_re line = None \<Longrightarrow> pool p = ''unknown''"
    and "re_search release_re line = None \<Longrightarrow> release p = ''unknown''"
    and "re_search upstream_status_re line = None \<Longrightarrow> upstream_status p = 0"
    and "re_search status_re line = None \<Longrightarrow> status p = 0"
    and "re_search upstream_re line = None \<Longrightarrow> upstream p = ''unknown''"
    and "re_search request_time_re line = None \<Longrightarrow> request_time p = Finite 0"
  using assms
  by (auto simp: parse_log_line_def Let_def split: option.splits sum.splits)

lemma re_match_at_key:
  "re_match_at (map Lit key) grp (key @ rest) = re_match_at [] grp rest"
  by (induction key) simp_all

lemma re_search_key_found:
  assumes "key \<noteq> []" and "takeWhile grp rest \<noteq> []"
  shows "re_search (key_pattern key grp) (key @ rest) = Some (takeWhile grp rest)"
proof -
  from assms(1) obtain c cs where k: "key @ rest = c # cs" by (cases key) auto
  have "re_match_at (map Lit key) grp (c # cs) = Some (takeWhile grp rest)"
    unfolding k [symmetric] re_match_at_key using assms(2) by simp
  then show ?thesis unfolding k by (simp add: key_pattern_def)
qed

lemma long_status_capture:
  "re_search upstream_status_re long_status_line = Some (replicate 4301 (CHR ''5''))"
proof -
  have tw: "takeWhile is_digit (replicate 4301 (CHR ''5'')) = replicate 4301 (CHR ''5'')"
    by (simp add: takeWhile_replicate is_digit_def)
  have "re_search (key_pattern ''upstream_status='' is_digit)
          (''upstream_status='' @ replicate 4301 (CHR ''5''))
        = Some (takeWhile is_digit (replicate 4301 (CHR ''5'')))"
    by (rule re_search_key_found) (simp_all only: tw, simp_all)
  then show ?thesis unfolding tw long_status_line_def upstream_status_re_def .
qed

lemma parse_log_line_timestamp:
  "parse_log_line m now line = Some p \<Longrightarrow> timestamp p = now"
  by (auto simp: parse_log_line_def Let_def split: sum.splits)

text \<open>
  C2, as stated, fails: a line with a pool and the token
  \<^verbatim>\<open>request_time=1.2.3\<close> is not parsed into a record with the default request
  time; \<^verbatim>\<open>float\<close> raises, the exception is caught on line 74 and the function
  returns \<^verbatim>\<open>None\<close>.
\<close>

theorem parse_counterexample:
  "parse_log_line 4300 0 ''pool=blue request_time=1.2.3'' = None"
  by code_simp

text \<open>
  C2, amended. For every line, \<^verbatim>\<open>parse_log_line\<close> returns \<^verbatim>\<open>None\<close> exactly when
  a token that was found cannot be converted: the text captured after
  \<^verbatim>\<open>request_time=\<close> has no digit or more than one dot, or the digits captured
  for the status or the upstream status are more than the interpreter's limit
  for \<^verbatim>\<open>int\<close>. Otherwise it returns a record in which every field whose
  pattern found nothing has its default (\<^verbatim>\<open>unknown\<close> or 0); and a pattern finds
  nothing, in particular, when its marker does not occur in the line.
\<close>

theorem parse_log_line_defaults:
  "(parse_log_line m now line = None) =
     ((\<exists>g. re_search upstream_status_re line = Some g \<and> 0 < m \<and> m < length g) \<or>
      (\<exists>g. re_search status_re line = Some g \<and> 0 < m \<and> m < length g) \<or>
      (\<exists>g. re_search request_time_re line = Some g \<and>
           ((\<forall>c\<in>set g. \<not> is_digit c) \<or> 2 \<le> count_list g (CHR ''.'')))) \<and>
   (parse_log_line m now line = Some p \<longrightarrow>
      (re_search pool_re line = None \<longrightarrow> pool p = ''unknown'') \<and>
      (re_search release_re line = None \<longrightarrow> release p = ''unknown'') \<and>
      (re_search upstream_status_re line = None \<longrightarrow> upstream_status p = 0) \<and>
      (re_search status_re line = None \<longrightarrow> status p = 0) \<and>
      (re_search upstream_re line = None \<longrightarrow> upstream p = ''unknown'') \<and>
      (re_search request_time_re line = None \<longrightarrow> request_time p = Finite 0)) \<and>
   (\<not> occurs ''pool='' line \<longrightarrow> re_search pool_re line = None) \<and>
   (\<not> occurs ''release='' line \<longrightarrow> re_search release_re line = None) \<and>
   (\<not> occurs ''upstream_status='' line \<longrightarrow> re_search upstream_status_re line = None) \<and>
   (CHR 0x22 \<notin> set line \<longrightarrow> re_search status_re line = None) \<and>
   (\<not> occurs ''upstream='' line \<longrightarrow> re_search upstream_re line = None) \<and>
   (\<not> occurs ''request_time='' line \<longrightarrow> re_search request_time_re line = None)"
proof -
  have fl: "\<And>g. re_search request_time_re line = Some g \<Longrightarrow>
              (py_float g = Inl ValueError)
                = ((\<forall>c\<in>set g. \<not> is_digit c) \<or> 2 \<le> count_list g (CHR ''.''))"
    by (rule py_float_fails) (rule request_time_capture)
  have none: "(parse_log_line m now line = None) =
     ((\<exists>g. re_search upstream_status_re line = Some g \<and> 0 < m \<and> m < length g) \<or>
      (\<exists>g. re_search status_re line = Some g \<and> 0 < m \<and> m < length g) \<or>
      (\<exists>g. re_search request_time_re line = Some g \<and>
           ((\<forall>c\<in>set g. \<not> is_digit c) \<or> 2 \<le> count_list g (CHR ''.''))))"
    unfolding parse_log_line_None py_int_fails using fl by auto
  have dflt: "parse_log_line m now line = Some p \<longrightarrow>
      (re_search pool_re line = None \<longrightarrow> pool p = ''unknown'') \<and>
      (re_search release_re line = None \<longrightarrow> release p = ''unknown'') \<and>
      (re_search upstream_status_re line = None \<longrightarrow> upstream_status p = 0) \<and>
      (re_search status_re line = None \<longrightarrow> status p = 0) \<and>
      (re_search upstream_re line = None \<longrightarrow> upstream p = ''unknown'') \<and>
      (re_search request_time_re line = None \<longrightarrow> request_time p = Finite 0)"
    using parse_log_line_absent [of m now line p] by blast
  have absent:
    "\<not> occurs ''pool='' line \<longrightarrow> re_search pool_re line = None"
    "\<not> occurs ''release='' line \<longrightarrow> re_search release_re line = None"
    "\<not> occurs ''upstream_status='' line \<longrightarrow> re_search upstream_status_re line = None"
    "CHR 0x22 \<notin> set line \<longrightarrow> re_search status_re line = None"
    "\<not> occurs ''upstream='' line \<longrightarrow> re_search upstream_re line = None"
    "\<not> occurs ''request_time='' line \<longrightarrow> re_search request_time_re line = None"
    unfolding pool_re_def release_re_def upstream_status_re_def upstream_re_def
      request_time_re_def
    using re_search_key_absent re_search_status_absent by blast+
  from none dflt absent show ?thesis by blast
qed

text \<open>
  C2, instances: a line without any token gives the record of defaults; the
  line of the counterexample and a line whose upstream status has 4301 digits,
  under the default limit of 4300, give \<^verbatim>\<open>None\<close>.
\<close>

theorem parse_log_line_defaults_witness:
  "parse_log_line 4300 0 ''GET /healthz''
     = Some \<lparr>pool = ''unknown'', release = ''unknown'', status = 0, upstream_status = 0,
             upstream = ''unknown'', request_time = Finite 0, is_5xx = False, timestamp = 0\<rparr> \<and>
   \<not> occurs ''pool='' ''GET /healthz'' \<and>
   \<not> occurs ''release='' ''GET /healthz'' \<and>
   \<not> occurs ''upstream_status='' ''GET /healthz'' \<and>
   CHR 0x22 \<notin> set ''GET /healthz'' \<and>
   \<not> occurs ''upstream='' ''GET /healthz'' \<and>
   \<not> occurs ''request_time='' ''GET /healthz'' \<and>
   re_search request_time_re ''pool=blue request_time=1.2.3'' = Some ''1.2.3'' \<and>
   2 \<le> count_list ''1.2.3'' (CHR ''.'') \<and>
   parse_log_line 4300 0 ''pool=blue request_time=1.2.3'' = None \<and>
   re_search upstream_status_re long_status_line = Some (replicate 4301 (CHR ''5'')) \<and>
   parse_log_line 4300 0 long_status_line = None"
proof -
  let ?l = "''GET /healthz''"
  have a: "\<not> occurs ''pool='' ?l" "\<not> occurs ''release='' ?l"
    "\<not> occurs ''upstream_status='' ?l" "CHR 0x22 \<notin> set ?l"
    "\<not> occurs ''upstream='' ?l" "\<not> occurs ''request_time='' ?l"
    by simp_all
  have r: "re_search request_time_re ''pool=blue request_time=1.2.3'' = Some ''1.2.3''"
    by code_simp
  have c: "2 \<le> count_list ''1.2.3'' (CHR ''.'')" by simp
  note u = long_status_capture
  note T = parse_log_line_defaults [of 4300 0 ?l]
  have n: "re_search pool_re ?l = None" "re_search release_re ?l = None"
    "re_search upstream_status_re ?l = None" "re_search status_re ?l = None"
    "re_search upstream_re ?l = None" "re_search request_time_re ?l = None"
    using T [THEN conjunct2, THEN conjunct2, THEN conjunct1, THEN mp, OF a(1)]
      T [THEN conjunct2, THEN conjunct2, THEN conjunct2, THEN conjunct1, THEN mp, OF a(2)]
      T [THEN conjunct2, THEN conjunct2, THEN conjunct2, THEN conjunct2, THEN conjunct1,
         THEN mp, OF a(3)]
      T [THEN conjunct2, THEN conjunct2, THEN conjunct2, THEN conjunct2, THEN conjunct2,
         THEN conjunct1, THEN mp, OF a(4)]
      T [THEN conjunct2, THEN conjunct2, THEN conjunct2, THEN conjunct2, THEN conjunct2,
         THEN conjunct2, THEN conjunct1, THEN mp, OF a(5)]
      T [THEN conjunct2, THEN conjunct2, THEN conjunct2, THEN conjunct2, THEN conjunct2,
         THEN conjunct2, THEN conjunct2, THEN mp, OF a(6)]
    by - assumption+
  have "parse_log_line 4300 0 ?l \<noteq> None"
  proof
    assume "parse_log_line 4300 0 ?l = None"
    with T [THEN conjunct1]
    have "(\<exists>g. re_search upstream_status_re ?l = Some g \<and> 0 < (4300::nat) \<and> 4300 < length g) \<or>
      (\<exists>g. re_search status_re ?l = Some g \<and> 0 < (4300::nat) \<and> 4300 < length g) \<or>
      (\<exists>g. re_search request_time_re ?l = Some g \<and>
           ((\<forall>c\<in>set g. \<not> is_digit c) \<or> 2 \<le> count_list g (CHR ''.'')))"
      by (rule iffD1)
    then show False unfolding n by simp
  qed
  then obtain p where p: "parse_log_line 4300 0 ?l = Some p" by blast
  from T [of p, THEN conjunct2, THEN conjunct1, THEN mp, OF p] n
  have f: "pool p = ''unknown''" "release p = ''unknown''" "status p = 0"
    "upstream_status p = 0" "upstream p = ''unknown''" "request_time p = Finite 0"
    by blast+
  have "timestamp p = 0" "is_5xx p = (500 \<le> status p \<or> 500 \<le> upstream_status p)"
    using parse_log_line_timestamp [OF p] parse_log_line_is_5xx [OF p] by simp_all
  with f have "p = \<lparr>pool = ''unknown'', release = ''unknown'', status = 0,
             upstream_status = 0, upstream = ''unknown'', request_time = Finite 0, is_5xx = False,
             timestamp = 0\<rparr>"
    by (cases p) simp
  with p have p': "parse_log_line 4300 0 ?l
     = Some \<lparr>pool = ''unknown'', release = ''unknown'', status = 0, upstream_status = 0,
             upstream = ''unknown'', request_time = Finite 0, is_5xx = False, timestamp = 0\<rparr>"
    by simp
  have "(\<exists>g. re_search upstream_status_re ''pool=blue request_time=1.2.3'' = Some g \<and>
             0 < (4300::nat) \<and> 4300 < length g) \<or>
        (\<exists>g. re_search status_re ''pool=blue request_time=1.2.3'' = Some g \<and>
             0 < (4300::nat) \<and> 4300 < length g) \<or>
        (\<exists>g. re_search request_time_re ''pool=blue request_time=1.2.3'' = Some g \<and>
             ((\<forall>c\<in>set g. \<not> is_digit c) \<or> 2 \<le> count_list g (CHR ''.'')))"
    by (rule disjI2, rule disjI2, rule exI [of _ "''1.2.3''"], rule conjI, rule r,
        rule disjI2, rule c)
  then have f1: "parse_log_line 4300 0 ''pool=blue request_time=1.2.3'' = None"
    by (rule parse_log_line_defaults [THEN conjunct1, THEN iffD2])
  have "0 < (4300::nat)" "4300 < length (replicate 4301 (CHR ''5''))" by simp_all
  then have "(\<exists>g. re_search upstream_status_re long_status_line = Some g \<and>
             0 < (4300::nat) \<and> 4300 < length g) \<or>
        (\<exists>g. re_search status_re long_status_line = Some g \<and>
             0 < (4300::nat) \<and> 4300 < length g) \<or>
        (\<exists>g. re_search request_time_re long_status_line = Some g \<and>
             ((\<forall>c\<in>set g. \<not> is_digit c) \<or> 2 \<le> count_list g (CHR ''.'')))"
    by (intro disjI1 exI [of _ "replicate 4301 (CHR ''5'')"] conjI u)
  then have f2: "parse_log_line 4300 0 long_status_line = None"
    by (rule parse_log_line_defaults [THEN conjunct1, THEN iffD2])
  show ?thesis by (intro conjI p' a r c u f1 f2)
qed

end
